theory Spec2Isabelle
  imports Main "HOL-Library.Sublist"
begin

section \<open>fe-web-utils.c: the outbound message pipeline\<close>

text \<open>
  A shallow embedding of \<^verbatim>\<open>src/fe-web-utils.c\<close>. A C string is modelled by the
  list of its bytes before the terminating NUL (\<^typ>\<open>string\<close>), a pointer that may be
  \<^verbatim>\<open>NULL\<close> by an \<^typ>\<open>'a option\<close>; a \<^verbatim>\<open>GString\<close> that the code appends to
  is a string that the model extends on the right. A C string holds no NUL byte; no
  theorem below needs that restriction.
\<close>

subsection \<open>Message types and their names\<close>

text \<open>
  \<^verbatim>\<open>WEB_MESSAGE_TYPE\<close> is declared in \<^verbatim>\<open>fe-web.h\<close>; the variants are the case
  labels of \<^verbatim>\<open>fe_web_type_to_string\<close>. A C enum can hold any integer, and the
  switch has a \<^verbatim>\<open>default\<close> branch: \<open>WEB_MSG_UNRECOGNIZED n\<close> stands for a tag
  that is none of the 23 labels.
\<close>

datatype WEB_MESSAGE_TYPE =
    WEB_MSG_AUTH_OK
  | WEB_MSG_MESSAGE
  | WEB_MSG_SERVER_STATUS
  | WEB_MSG_CHANNEL_JOIN
  | WEB_MSG_CHANNEL_PART
  | WEB_MSG_CHANNEL_KICK
  | WEB_MSG_USER_QUIT
  | WEB_MSG_TOPIC
  | WEB_MSG_CHANNEL_MODE
  | WEB_MSG_NICKLIST
  | WEB_MSG_NICKLIST_UPDATE
  | WEB_MSG_NICK_CHANGE
  | WEB_MSG_USER_MODE
  | WEB_MSG_AWAY
  | WEB_MSG_WHOIS
  | WEB_MSG_CHANNEL_LIST
  | WEB_MSG_STATE_DUMP
  | WEB_MSG_ERROR
  | WEB_MSG_PONG
  | WEB_MSG_QUERY_OPENED
  | WEB_MSG_QUERY_CLOSED
  | WEB_MSG_ACTIVITY_UPDATE
  | WEB_MSG_MARK_READ
  | WEB_MSG_UNRECOGNIZED nat

fun fe_web_type_to_string :: "WEB_MESSAGE_TYPE \<Rightarrow> string" where
  "fe_web_type_to_string WEB_MSG_AUTH_OK = ''auth_ok''"
| "fe_web_type_to_string WEB_MSG_MESSAGE = ''message''"
| "fe_web_type_to_string WEB_MSG_SERVER_STATUS = ''server_status''"
| "fe_web_type_to_string WEB_MSG_CHANNEL_JOIN = ''channel_join''"
| "fe_web_type_to_string WEB_MSG_CHANNEL_PART = ''channel_part''"
| "fe_web_type_to_string WEB_MSG_CHANNEL_KICK = ''channel_kick''"
| "fe_web_type_to_string WEB_MSG_USER_QUIT = ''user_quit''"
| "fe_web_type_to_string WEB_MSG_TOPIC = ''topic''"
| "fe_web_type_to_string WEB_MSG_CHANNEL_MODE = ''channel_mode''"
| "fe_web_type_to_string WEB_MSG_NICKLIST = ''nicklist''"
| "fe_web_type_to_string WEB_MSG_NICKLIST_UPDATE = ''nicklist_update''"
| "fe_web_type_to_string WEB_MSG_NICK_CHANGE = ''nick_change''"
| "fe_web_type_to_string WEB_MSG_USER_MODE = ''user_mode''"
| "fe_web_type_to_string WEB_MSG_AWAY = ''away''"
| "fe_web_type_to_string WEB_MSG_WHOIS = ''whois''"
| "fe_web_type_to_string WEB_MSG_CHANNEL_LIST = ''channel_list''"
| "fe_web_type_to_string WEB_MSG_STATE_DUMP = ''state_dump''"
| "fe_web_type_to_string WEB_MSG_ERROR = ''error''"
| "fe_web_type_to_string WEB_MSG_PONG = ''pong''"
| "fe_web_type_to_string WEB_MSG_QUERY_OPENED = ''query_opened''"
| "fe_web_type_to_string WEB_MSG_QUERY_CLOSED = ''query_closed''"
| "fe_web_type_to_string WEB_MSG_ACTIVITY_UPDATE = ''activity_update''"
| "fe_web_type_to_string WEB_MSG_MARK_READ = ''mark_read''"
| "fe_web_type_to_string (WEB_MSG_UNRECOGNIZED n) = ''unknown''"

text \<open>The 23 variants that have a case label, in the order of the switch.\<close>

definition known_types :: "WEB_MESSAGE_TYPE list" where
  "known_types =
    [WEB_MSG_AUTH_OK, WEB_MSG_MESSAGE, WEB_MSG_SERVER_STATUS, WEB_MSG_CHANNEL_JOIN,
     WEB_MSG_CHANNEL_PART, WEB_MSG_CHANNEL_KICK, WEB_MSG_USER_QUIT, WEB_MSG_TOPIC,
     WEB_MSG_CHANNEL_MODE, WEB_MSG_NICKLIST, WEB_MSG_NICKLIST_UPDATE, WEB_MSG_NICK_CHANGE,
     WEB_MSG_USER_MODE, WEB_MSG_AWAY, WEB_MSG_WHOIS, WEB_MSG_CHANNEL_LIST,
     WEB_MSG_STATE_DUMP, WEB_MSG_ERROR, WEB_MSG_PONG, WEB_MSG_QUERY_OPENED,
     WEB_MSG_QUERY_CLOSED, WEB_MSG_ACTIVITY_UPDATE, WEB_MSG_MARK_READ]"

subsection \<open>The escaper\<close>

text \<open>
  \<^verbatim>\<open>"%04x"\<close> applied to an \<^verbatim>\<open>unsigned char\<close>: the value is below 256, so the
  output is two zeros and two lowercase hexadecimal digits.
\<close>

definition hex_digit :: "nat \<Rightarrow> char" where
  "hex_digit d = (if d < 10 then char_of (48 + d) else char_of (87 + d))"

definition printf_04x :: "char \<Rightarrow> string" where
  "printf_04x c =
    [CHR ''0'', CHR ''0'', hex_digit (of_char c div 16), hex_digit (of_char c mod 16)]"

text \<open>The body of the switch in \<^verbatim>\<open>fe_web_escape_json\<close>: what one byte appends.\<close>

definition escape_byte :: "char \<Rightarrow> string" where
  "escape_byte c =
    (if c = CHR 0x22 then [CHR 0x5C, CHR 0x22]
     else if c = CHR 0x5C then [CHR 0x5C, CHR 0x5C]
     else if c = CHR 0x08 then [CHR 0x5C, CHR ''b'']
     else if c = CHR 0x0C then [CHR 0x5C, CHR ''f'']
     else if c = CHR 0x0A then [CHR 0x5C, CHR ''n'']
     else if c = CHR 0x0D then [CHR 0x5C, CHR ''r'']
     else if c = CHR 0x09 then [CHR 0x5C, CHR ''t'']
     else if (of_char c :: nat) < 32 then [CHR 0x5C, CHR ''u''] @ printf_04x c
     else [c])"

text \<open>The bytes that have a case label of their own in that switch.\<close>

definition special_byte :: "char \<Rightarrow> bool" where
  "special_byte c \<longleftrightarrow>
    c = CHR 0x22 \<or> c = CHR 0x5C \<or> c = CHR 0x08 \<or> c = CHR 0x0C \<or>
    c = CHR 0x0A \<or> c = CHR 0x0D \<or> c = CHR 0x09"

text \<open>
  The \<^verbatim>\<open>for\<close> loop: \<open>p\<close> is the rest of the input (the loop ends at the
  terminating NUL, the end of the list), \<open>result\<close> the \<^verbatim>\<open>GString\<close> built so far.
\<close>

fun escape_loop :: "string \<Rightarrow> string \<Rightarrow> string" where
  "escape_loop [] result = result"
| "escape_loop (c # p) result = escape_loop p (result @ escape_byte c)"

definition fe_web_escape_json :: "string option \<Rightarrow> string" where
  "fe_web_escape_json str =
    (case str of None \<Rightarrow> [] | Some s \<Rightarrow> escape_loop s [])"

subsection \<open>A JSON string decoder (RFC 8259, section 7)\<close>

text \<open>
  The reference against which the escaper is checked; it is not part of the program.
  It reads the characters between the quotation marks of a JSON string, given as UTF-8
  bytes, and returns the UTF-8 bytes of the string's value.
\<close>

definition hex_value :: "char \<Rightarrow> nat option" where
  "hex_value c =
    (let b = (of_char c :: nat) in
     if 48 \<le> b \<and> b \<le> 57 then Some (b - 48)
     else if 97 \<le> b \<and> b \<le> 102 then Some (b - 87)
     else if 65 \<le> b \<and> b \<le> 70 then Some (b - 55)
     else None)"

definition hex4 :: "char \<Rightarrow> char \<Rightarrow> char \<Rightarrow> char \<Rightarrow> nat option" where
  "hex4 a b c d =
    (case (hex_value a, hex_value b, hex_value c, hex_value d) of
       (Some w, Some x, Some y, Some z) \<Rightarrow> Some (4096 * w + 256 * x + 16 * y + z)
     | _ \<Rightarrow> None)"

text \<open>The UTF-8 encoding of a code point below \<open>0x110000\<close> (RFC 3629).\<close>

definition utf8_encode :: "nat \<Rightarrow> string" where
  "utf8_encode n =
    (if n < 0x80 then [char_of n]
     else if n < 0x800 then [char_of (0xC0 + n div 64), char_of (0x80 + n mod 64)]
     else if n < 0x10000 then
       [char_of (0xE0 + n div 4096), char_of (0x80 + n div 64 mod 64), char_of (0x80 + n mod 64)]
     else
       [char_of (0xF0 + n div 262144), char_of (0x80 + n div 4096 mod 64),
        char_of (0x80 + n div 64 mod 64), char_of (0x80 + n mod 64)])"

text \<open>The two-character escapes of the JSON grammar.\<close>

definition simple_escape :: "char \<Rightarrow> char option" where
  "simple_escape e =
    (if e = CHR 0x22 then Some (CHR 0x22)
     else if e = CHR 0x5C then Some (CHR 0x5C)
     else if e = CHR ''/'' then Some (CHR ''/'')
     else if e = CHR ''b'' then Some (CHR 0x08)
     else if e = CHR ''f'' then Some (CHR 0x0C)
     else if e = CHR ''n'' then Some (CHR 0x0A)
     else if e = CHR ''r'' then Some (CHR 0x0D)
     else if e = CHR ''t'' then Some (CHR 0x09)
     else None)"

text \<open>
  Unescaping. An unescaped quotation mark or control character is refused, and so is an
  unknown escape. A \<^verbatim>\<open>\uXXXX\<close> escape yields the UTF-8 bytes of its code point; a high
  surrogate must be followed by the escape of a low surrogate, and the pair yields one code
  point; a surrogate on its own is refused.
\<close>

fun json_unescape :: "string \<Rightarrow> string option" where
  "json_unescape [] = Some []"
| "json_unescape (c # cs) =
    (if c = CHR 0x5C then
       (case cs of
          [] \<Rightarrow> None
        | e # r \<Rightarrow>
            if e = CHR ''u'' then
              (case r of
                 h1 # h2 # h3 # h4 # r' \<Rightarrow>
                   (case hex4 h1 h2 h3 h4 of
                      None \<Rightarrow> None
                    | Some n \<Rightarrow>
                        if 0xD800 \<le> n \<and> n < 0xDC00 then
                          (case r' of
                             b # u # l1 # l2 # l3 # l4 # r'' \<Rightarrow>
                               (case hex4 l1 l2 l3 l4 of
                                  None \<Rightarrow> None
                                | Some m \<Rightarrow>
                                    if b = CHR 0x5C \<and> u = CHR ''u'' \<and> 0xDC00 \<le> m \<and> m < 0xE000
                                    then map_option
                                      ((@) (utf8_encode (0x10000 + (n - 0xD800) * 0x400 + (m - 0xDC00))))
                                      (json_unescape r'')
                                    else None)
                           | _ \<Rightarrow> None)
                        else if 0xDC00 \<le> n \<and> n < 0xE000 then None
                        else map_option ((@) (utf8_encode n)) (json_unescape r'))
               | _ \<Rightarrow> None)
            else
              (case simple_escape e of
                 None \<Rightarrow> None
               | Some d \<Rightarrow> map_option ((#) d) (json_unescape r)))
     else if c = CHR 0x22 \<or> (of_char c :: nat) < 0x20 then None
     else map_option ((#) c) (json_unescape cs))"

text \<open>
  Well-formed UTF-8 (RFC 3629, section 4), as an automaton over the bytes: \<open>k\<close> is the
  number of continuation bytes still owed, \<open>lo\<close> and \<open>hi\<close> bound the next of them.
\<close>

fun utf8_from :: "nat \<Rightarrow> nat \<Rightarrow> nat \<Rightarrow> string \<Rightarrow> bool" where
  "utf8_from k lo hi [] = (k = 0)"
| "utf8_from k lo hi (c # cs) =
    (let b = (of_char c :: nat) in
     if k = 0 then
       (if b < 0x80 then utf8_from 0 0x80 0xBF cs
        else if 0xC2 \<le> b \<and> b \<le> 0xDF then utf8_from 1 0x80 0xBF cs
        else if b = 0xE0 then utf8_from 2 0xA0 0xBF cs
        else if 0xE1 \<le> b \<and> b \<le> 0xEC then utf8_from 2 0x80 0xBF cs
        else if b = 0xED then utf8_from 2 0x80 0x9F cs
        else if 0xEE \<le> b \<and> b \<le> 0xEF then utf8_from 2 0x80 0xBF cs
        else if b = 0xF0 then utf8_from 3 0x90 0xBF cs
        else if 0xF1 \<le> b \<and> b \<le> 0xF3 then utf8_from 3 0x80 0xBF cs
        else if b = 0xF4 then utf8_from 3 0x80 0x8F cs
        else False)
     else lo \<le> b \<and> b \<le> hi \<and> utf8_from (k - 1) 0x80 0xBF cs)"

definition utf8_wellformed :: "string \<Rightarrow> bool" where
  "utf8_wellformed s = utf8_from 0 0x80 0xBF s"

text \<open>
  The decoder: a JSON text is UTF-8 (RFC 8259, section 8.1), so bytes that are not
  well-formed UTF-8 are not a JSON string and are refused.
\<close>

definition json_string_decode :: "string \<Rightarrow> string option" where
  "json_string_decode t = (if utf8_wellformed t then json_unescape t else None)"

subsection \<open>Formatted output\<close>

text \<open>
  The conversions of \<^verbatim>\<open>g_strdup_printf\<close> that the file uses on integers:
  \<^verbatim>\<open>%d\<close> and \<^verbatim>\<open>%ld\<close> (decimal, with a minus sign) and \<^verbatim>\<open>%04d\<close> (at least four
  characters, padded with zeros after the sign).
\<close>

definition digit_char :: "nat \<Rightarrow> char" where
  "digit_char d = char_of (48 + d)"

function decimal :: "nat \<Rightarrow> string" where
  "decimal n = (if n < 10 then [digit_char n] else decimal (n div 10) @ [digit_char (n mod 10)])"
  by pat_completeness auto
termination
  by (relation "measure (\<lambda>n. n)") auto

definition zero_pad :: "nat \<Rightarrow> string \<Rightarrow> string" where
  "zero_pad w s = replicate (w - length s) (CHR ''0'') @ s"

definition printf_d :: "int \<Rightarrow> string" where
  "printf_d i = (if i < 0 then ''-'' @ decimal (nat (- i)) else decimal (nat i))"

definition printf_04d :: "int \<Rightarrow> string" where
  "printf_04d i =
    (if i < 0 then ''-'' @ zero_pad 3 (decimal (nat (- i))) else zero_pad 4 (decimal (nat i)))"

subsection \<open>The ID generator\<close>

text \<open>
  \<^verbatim>\<open>fe_web_generate_message_id\<close> reads the clock and a \<^verbatim>\<open>static int counter\<close>
  that starts at 0. The model takes the clock reading \<open>now\<close> and the counter, and
  returns the ID with the counter as the call leaves it.
\<close>

definition counter_init :: int where
  "counter_init = 0"

definition fe_web_generate_message_id :: "int \<Rightarrow> int \<Rightarrow> string \<times> int" where
  "fe_web_generate_message_id now counter =
    (let id = printf_d now @ ''-'' @ printf_04d counter;
         counter = counter + 1;
         counter = (if counter \<ge> 10000 then 0 else counter)
     in (id, counter))"

text \<open>Consecutive calls, one per clock reading of the list; the IDs in call order.\<close>

fun generate_ids :: "int list \<Rightarrow> int \<Rightarrow> string list \<times> int" where
  "generate_ids [] counter = ([], counter)"
| "generate_ids (now # nows) counter =
    (let (id, counter) = fe_web_generate_message_id now counter;
         (ids, counter) = generate_ids nows counter
     in (id # ids, counter))"

text \<open>Four decimal digits: how the specification describes the rendering of the counter.\<close>

definition four_digits :: "nat \<Rightarrow> string" where
  "four_digits n =
    [digit_char (n div 1000 mod 10), digit_char (n div 100 mod 10),
     digit_char (n div 10 mod 10), digit_char (n mod 10)]"

subsection \<open>Messages and their serialization\<close>

text \<open>
  \<^verbatim>\<open>WEB_MESSAGE_REC\<close> is declared in \<^verbatim>\<open>fe-web.h\<close>; the fields are the ones this file
  reads. \<open>msg_id\<close>, \<open>msg_type\<close> and \<open>msg_text\<close> are the C fields \<^verbatim>\<open>id\<close>,
  \<^verbatim>\<open>type\<close> and \<^verbatim>\<open>text\<close>. \<open>extra_data\<close> is the \<^verbatim>\<open>GHashTable\<close> (or
  \<^verbatim>\<open>NULL\<close>): its entries in the order the iterator yields them, each value a string
  or \<^verbatim>\<open>NULL\<close>; a hash table holds each key once. The timestamp and the level are
  printed and compared with zero, never computed with: they are integers here.
\<close>

record WEB_MESSAGE_REC =
  msg_id :: "string option"
  msg_type :: WEB_MESSAGE_TYPE
  server_tag :: "string option"
  target :: "string option"
  nick :: "string option"
  msg_text :: "string option"
  response_to :: "string option"
  timestamp :: int
  level :: int
  is_own :: bool
  extra_data :: "(string \<times> string option) list option"

text \<open>\<^verbatim>\<open>value_str[0]\<close>: the first byte, which is the terminating NUL of an empty string.\<close>

definition first_byte :: "string \<Rightarrow> char" where
  "first_byte s = (case s of [] \<Rightarrow> CHR 0x00 | c # _ \<Rightarrow> c)"

text \<open>
  The \<^verbatim>\<open>while\<close> loop over the hash table: \<open>entries\<close> are the entries not yet
  visited, \<open>first\<close> the flag of the same name, \<open>json\<close> the \<^verbatim>\<open>GString\<close>.
\<close>

fun extra_loop :: "(string \<times> string option) list \<Rightarrow> bool \<Rightarrow> string \<Rightarrow> string" where
  \<open>extra_loop [] first json = json\<close>
| \<open>extra_loop ((key_str, value_str) # entries) first json =
    (let json = (if \<not> first then json @ '','' else json);
         escaped_key = fe_web_escape_json (Some key_str);
         escaped = json @ ''"'' @ escaped_key @ ''":"'' @ fe_web_escape_json value_str @ ''"'';
         json = (case value_str of
                   None \<Rightarrow> escaped
                 | Some v \<Rightarrow>
                     if key_str = ''params'' \<and> first_byte v = CHR ''[''
                     then json @ ''"'' @ escaped_key @ ''":'' @ v
                     else escaped)
     in extra_loop entries False json)\<close>

definition fe_web_message_to_json :: "WEB_MESSAGE_REC \<Rightarrow> string" where
  \<open>fe_web_message_to_json msg =
    (let json = ''{'';
         json = (case msg_id msg of
                   None \<Rightarrow> json
                 | Some s \<Rightarrow> json @ ''"id":"'' @ fe_web_escape_json (Some s) @ ''",'');
         json = json @ ''"type":"'' @ fe_web_type_to_string (msg_type msg) @ ''"'';
         json = (case response_to msg of
                   None \<Rightarrow> json
                 | Some s \<Rightarrow> json @ '',"response_to":"'' @ fe_web_escape_json (Some s) @ ''"'');
         json = (case server_tag msg of
                   None \<Rightarrow> json
                 | Some s \<Rightarrow> json @ '',"server":"'' @ fe_web_escape_json (Some s) @ ''"'');
         json = (case target msg of
                   None \<Rightarrow> json
                 | Some s \<Rightarrow> json @ '',"channel":"'' @ fe_web_escape_json (Some s) @ ''"'');
         json = (case nick msg of
                   None \<Rightarrow> json
                 | Some s \<Rightarrow> json @ '',"nick":"'' @ fe_web_escape_json (Some s) @ ''"'');
         json = (case msg_text msg of
                   None \<Rightarrow> json
                 | Some s \<Rightarrow>
                     if msg_type msg = WEB_MSG_NICKLIST_UPDATE
                     then json @ '',"task":"'' @ fe_web_escape_json (Some s) @ ''"''
                     else json @ '',"text":"'' @ fe_web_escape_json (Some s) @ ''"'');
         json = json @ '',"timestamp":'' @ printf_d (timestamp msg);
         json = (if level msg \<noteq> 0 then json @ '',"level":'' @ printf_d (level msg) else json);
         json = (if msg_type msg = WEB_MSG_MESSAGE
                 then json @ '',"is_own":'' @ (if is_own msg then ''true'' else ''false'')
                 else json);
         json = (case extra_data msg of
                   None \<Rightarrow> json
                 | Some entries \<Rightarrow>
                     if length entries > 0
                     then extra_loop entries True (json @ '',"extra":{'') @ ''}''
                     else json);
         json = json @ ''}''
     in json)\<close>

text \<open>
  The object as the specification describes it: eleven slots in a fixed order, each a
  member (a key and its rendered value) or empty, and the members that are there joined by
  commas between braces.
\<close>

fun join_commas :: "string list \<Rightarrow> string" where
  "join_commas [] = []"
| "join_commas [x] = x"
| "join_commas (x # y # ys) = x @ '','' @ join_commas (y # ys)"

definition json_member :: "string \<times> string \<Rightarrow> string" where
  \<open>json_member m = ''"'' @ fst m @ ''":'' @ snd m\<close>

definition json_quoted :: "string \<Rightarrow> string" where
  \<open>json_quoted s = ''"'' @ fe_web_escape_json (Some s) @ ''"''\<close>

definition starts_with_bracket :: "string \<Rightarrow> bool" where
  "starts_with_bracket v = (case v of [] \<Rightarrow> False | c # _ \<Rightarrow> c = CHR ''['')"

definition extra_member :: "string \<times> string option \<Rightarrow> string \<times> string" where
  "extra_member e =
    (fe_web_escape_json (Some (fst e)),
     (case snd e of
        None \<Rightarrow> json_quoted []
      | Some v \<Rightarrow>
          if fst e = ''params'' \<and> starts_with_bracket v then v else json_quoted v))"

definition extra_object :: "(string \<times> string option) list \<Rightarrow> string" where
  "extra_object entries = ''{'' @ join_commas (map (json_member \<circ> extra_member) entries) @ ''}''"

definition extra_entries :: "WEB_MESSAGE_REC \<Rightarrow> (string \<times> string option) list" where
  "extra_entries msg = (case extra_data msg of None \<Rightarrow> [] | Some entries \<Rightarrow> entries)"

definition message_slots :: "WEB_MESSAGE_REC \<Rightarrow> (string \<times> string) option list" where
  "message_slots msg =
    [map_option (\<lambda>s. (''id'', json_quoted s)) (msg_id msg),
     Some (''type'', [CHR 0x22] @ fe_web_type_to_string (msg_type msg) @ [CHR 0x22]),
     map_option (\<lambda>s. (''response_to'', json_quoted s)) (response_to msg),
     map_option (\<lambda>s. (''server'', json_quoted s)) (server_tag msg),
     map_option (\<lambda>s. (''channel'', json_quoted s)) (target msg),
     map_option (\<lambda>s. (''nick'', json_quoted s)) (nick msg),
     map_option
       (\<lambda>s. (if msg_type msg = WEB_MSG_NICKLIST_UPDATE then ''task'' else ''text'', json_quoted s))
       (msg_text msg),
     Some (''timestamp'', printf_d (timestamp msg)),
     (if level msg \<noteq> 0 then Some (''level'', printf_d (level msg)) else None),
     (if msg_type msg = WEB_MSG_MESSAGE
      then Some (''is_own'', if is_own msg then ''true'' else ''false'') else None),
     (if extra_entries msg \<noteq> [] then Some (''extra'', extra_object (extra_entries msg)) else None)]"

definition present :: "'a option list \<Rightarrow> 'a list" where
  "present slots = List.map_filter (\<lambda>x. x) slots"

definition render_object :: "(string \<times> string) list \<Rightarrow> string" where
  "render_object members = ''{'' @ join_commas (map json_member members) @ ''}''"

text \<open>A line break: a line feed or a carriage return.\<close>

definition line_break :: "char \<Rightarrow> bool" where
  "line_break c \<longleftrightarrow> c = CHR 0x0A \<or> c = CHR 0x0D"

definition single_line :: "string \<Rightarrow> bool" where
  "single_line s \<longleftrightarrow> \<not> list_ex line_break s"

text \<open>The values that the serializer copies into its output without escaping.\<close>

definition raw_values :: "WEB_MESSAGE_REC \<Rightarrow> string list" where
  "raw_values msg =
    List.map_filter
      (\<lambda>e. case snd e of
             None \<Rightarrow> None
           | Some v \<Rightarrow> if fst e = ''params'' \<and> starts_with_bracket v then Some v else None)
      (extra_entries msg)"

subsection \<open>Clients, external capabilities and the trace of external calls\<close>

text \<open>
  \<^verbatim>\<open>WEB_CLIENT_REC\<close> is declared in \<^verbatim>\<open>fe-web.h\<close>; the fields are the ones this file
  reads or writes (\<open>client_id\<close> is the C field \<^verbatim>\<open>id\<close>). The transport handle, the SSL
  channel and the bound server are pointers: an address, or \<^verbatim>\<open>NULL\<close>.
\<close>

record WEB_CLIENT_REC =
  client_id :: string
  authenticated :: bool
  handshake_done :: bool
  handle :: "nat option"
  encryption_enabled :: bool
  use_ssl :: bool
  ssl_channel :: "nat option"
  messages_sent :: nat
  server :: "nat option"
  wants_all_servers :: bool

text \<open>
  The functions that \<^verbatim>\<open>fe_web_send_message\<close> calls and that other files define are
  parameters of the model: the key lookup (a key, or \<^verbatim>\<open>NULL\<close>), the encryption of a
  plaintext under a key (the ciphertext, or failure), the WebSocket framing of a payload
  under an opcode, and the SSL write (its integer result).
\<close>

record externals =
  fe_web_crypto_get_key :: "string option"
  fe_web_crypto_encrypt :: "string \<Rightarrow> string \<Rightarrow> string option"
  fe_web_websocket_create_frame :: "nat \<Rightarrow> string \<Rightarrow> string"
  fe_web_ssl_write :: "nat \<Rightarrow> string \<Rightarrow> int"

datatype msglevel = MSGLEVEL_CLIENTERROR | MSGLEVEL_CLIENTNOTICE

text \<open>
  Every call that leaves the file is recorded, in order: a log line with its level, the
  key lookup, the encryption with its plaintext and key, the framing with its opcode and
  payload, the SSL write with its channel, frame and result, and the plain send with its
  handle and frame.
\<close>

datatype event =
    Printtext msglevel string
  | Crypto_get_key
  | Crypto_encrypt string string
  | Websocket_create_frame nat string
  | Ssl_write nat string int
  | Net_sendbuffer_send nat string

text \<open>
  The state that the sender and the fanout work on: the client records by address, the
  registry \<^verbatim>\<open>web_clients\<close> (the addresses in list order) and the trace of calls so far.
\<close>

record world =
  clients :: "nat \<Rightarrow> WEB_CLIENT_REC"
  web_clients :: "nat list"
  trace :: "event list"

definition call :: "event \<Rightarrow> world \<Rightarrow> world" where
  "call e w = w\<lparr>trace := trace w @ [e]\<rparr>"

definition printtext :: "msglevel \<Rightarrow> string \<Rightarrow> world \<Rightarrow> world" where
  "printtext lvl text w = call (Printtext lvl text) w"

text \<open>\<^verbatim>\<open>%d\<close> applied to a \<^verbatim>\<open>gboolean\<close> flag.\<close>

definition printf_flag :: "bool \<Rightarrow> string" where
  "printf_flag b = printf_d (if b then 1 else 0)"

subsection \<open>The sender\<close>

text \<open>
  Lines 395 to 420 of \<^verbatim>\<open>fe_web_send_message\<close>: the frame goes out over SSL when the
  client uses SSL and has a channel, and over the plain handle \<open>h\<close> otherwise; then the
  success line is logged and the counter incremented.
\<close>

definition send_frame ::
  "externals \<Rightarrow> nat \<Rightarrow> nat \<Rightarrow> string \<Rightarrow> string \<Rightarrow> world \<Rightarrow> world" where
  "send_frame ext client h type_str frame w =
    (let c = clients w client;
         sent = (\<lambda>w.
           let w = printtext MSGLEVEL_CLIENTNOTICE
                 (''fe-web: ['' @ client_id c @ ''] Sent '' @ type_str @ '' ('' @
                  printf_d (int (length frame)) @ '' bytes frame)'' @
                  (if use_ssl c then '' [SSL]'' else []) @
                  (if encryption_enabled c then '' [ENCRYPTED]'' else [])) w
           in w\<lparr>clients := (clients w)(client := c\<lparr>messages_sent := messages_sent c + 1\<rparr>)\<rparr>)
     in case (if use_ssl c then ssl_channel c else None) of
          Some ch \<Rightarrow>
            let ssl_ret = fe_web_ssl_write ext ch frame;
                w = call (Ssl_write ch frame ssl_ret) w
            in if ssl_ret < 0
               then printtext MSGLEVEL_CLIENTERROR
                      (''fe-web: ['' @ client_id c @ ''] SSL write failed for '' @ type_str) w
               else sent w
        | None \<Rightarrow> sent (call (Net_sendbuffer_send h frame) w))"

text \<open>
  Lines 341 to 393: the handle check, the serialization, the log line with the JSON, and
  the payload: encrypted and framed as binary (opcode 2) when the client has encryption
  enabled, framed as text (opcode 1) otherwise.
\<close>

definition send_ready :: "externals \<Rightarrow> nat \<Rightarrow> WEB_MESSAGE_REC \<Rightarrow> world \<Rightarrow> world" where
  "send_ready ext client msg w =
    (let type_str = fe_web_type_to_string (msg_type msg);
         c = clients w client
     in case handle c of
          None \<Rightarrow>
            printtext MSGLEVEL_CLIENTERROR
              (''fe-web: ['' @ client_id c @ ''] ERROR: Cannot send '' @ type_str @
               '' - handle is NULL'') w
        | Some h \<Rightarrow>
            let json = fe_web_message_to_json msg;
                w = printtext MSGLEVEL_CLIENTNOTICE
                      (''fe-web: ['' @ client_id c @ ''] Sending '' @ type_str @ '': '' @ json) w
            in if encryption_enabled c then
                 (let w = call Crypto_get_key w
                  in case fe_web_crypto_get_key ext of
                       None \<Rightarrow>
                         printtext MSGLEVEL_CLIENTERROR
                           (''fe-web: ['' @ client_id c @ ''] Encryption key not available for '' @
                            type_str) w
                     | Some key \<Rightarrow>
                         (let w = call (Crypto_encrypt json key) w
                          in case fe_web_crypto_encrypt ext json key of
                               None \<Rightarrow>
                                 printtext MSGLEVEL_CLIENTERROR
                                   (''fe-web: ['' @ client_id c @ ''] Encryption failed for '' @
                                    type_str) w
                             | Some encrypted \<Rightarrow>
                                 let w = printtext MSGLEVEL_CLIENTNOTICE
                                       (''fe-web: ['' @ client_id c @ ''] Encrypted '' @ type_str @
                                        '' ('' @ printf_d (int (length json)) @ '' -> '' @
                                        printf_d (int (length encrypted)) @ '' bytes)'') w;
                                     frame = fe_web_websocket_create_frame ext 2 encrypted;
                                     w = call (Websocket_create_frame 2 encrypted) w
                                 in send_frame ext client h type_str frame w))
               else
                 (let frame = fe_web_websocket_create_frame ext 1 json;
                      w = call (Websocket_create_frame 1 json) w
                  in send_frame ext client h type_str frame w))"

text \<open>
  \<^verbatim>\<open>fe_web_send_message\<close>, lines 308 to 339: the client may be \<^verbatim>\<open>NULL\<close>; the
  authentication acknowledgement needs the handshake only, every other type needs the
  authenticated flag and the handshake.
\<close>

definition fe_web_send_message ::
  "externals \<Rightarrow> nat option \<Rightarrow> WEB_MESSAGE_REC \<Rightarrow> world \<Rightarrow> world" where
  "fe_web_send_message ext client msg w =
    (let type_str = fe_web_type_to_string (msg_type msg)
     in case client of
          None \<Rightarrow>
            printtext MSGLEVEL_CLIENTERROR
              (''fe-web: ERROR: Cannot send '' @ type_str @ '' - client is NULL'') w
        | Some p \<Rightarrow>
            let c = clients w p
            in if msg_type msg \<noteq> WEB_MSG_AUTH_OK then
                 (if \<not> authenticated c \<or> \<not> handshake_done c
                  then printtext MSGLEVEL_CLIENTNOTICE
                         (''fe-web: ['' @ client_id c @ ''] Skipping '' @ type_str @
                          '' - not ready (auth:'' @ printf_flag (authenticated c) @
                          '' handshake:'' @ printf_flag (handshake_done c) @ '')'') w
                  else send_ready ext p msg w)
               else
                 (if \<not> handshake_done c
                  then printtext MSGLEVEL_CLIENTERROR
                         (''fe-web: ['' @ client_id c @ ''] ERROR: Cannot send '' @ type_str @
                          '' - handshake not done'') w
                  else send_ready ext p msg w))"

subsection \<open>The fanout\<close>

text \<open>The two \<^verbatim>\<open>for\<close> loops over the registry; \<open>tmp\<close> is the rest of the list.\<close>

fun send_to_server_loop ::
  "externals \<Rightarrow> nat \<Rightarrow> WEB_MESSAGE_REC \<Rightarrow> nat list \<Rightarrow> world \<Rightarrow> world" where
  "send_to_server_loop ext srv msg [] w = w"
| "send_to_server_loop ext srv msg (client # tmp) w =
    (let c = clients w client;
         w = (if authenticated c \<and> (server c = Some srv \<or> wants_all_servers c)
              then fe_web_send_message ext (Some client) msg w else w)
     in send_to_server_loop ext srv msg tmp w)"

definition fe_web_send_to_server_clients ::
  "externals \<Rightarrow> nat option \<Rightarrow> WEB_MESSAGE_REC \<Rightarrow> world \<Rightarrow> world" where
  "fe_web_send_to_server_clients ext srv msg w =
    (case srv of
       None \<Rightarrow> w
     | Some s \<Rightarrow> send_to_server_loop ext s msg (web_clients w) w)"

fun send_to_all_loop :: "externals \<Rightarrow> WEB_MESSAGE_REC \<Rightarrow> nat list \<Rightarrow> world \<Rightarrow> world" where
  "send_to_all_loop ext msg [] w = w"
| "send_to_all_loop ext msg (client # tmp) w =
    (let c = clients w client;
         w = (if authenticated c then fe_web_send_message ext (Some client) msg w else w)
     in send_to_all_loop ext msg tmp w)"

definition fe_web_send_to_all_clients :: "externals \<Rightarrow> WEB_MESSAGE_REC \<Rightarrow> world \<Rightarrow> world" where
  "fe_web_send_to_all_clients ext msg w = send_to_all_loop ext msg (web_clients w) w"

subsection \<open>What a trace shows\<close>

text \<open>The log lines of a trace, in order.\<close>

definition logged :: "event list \<Rightarrow> string list" where
  "logged tr = List.map_filter (\<lambda>e. case e of Printtext lvl text \<Rightarrow> Some text | _ \<Rightarrow> None) tr"

text \<open>
  Modelled from the spec: the effect of the two transport functions, \<^verbatim>\<open>net_sendbuffer_send\<close>
  and \<^verbatim>\<open>fe_web_ssl_write\<close>, which other files define. The plain transport takes the frame
  it is given; the SSL write reports failure by a negative result, and then nothing is
  transmitted. The frames transmitted by a trace, in order:
\<close>

definition transmitted :: "event list \<Rightarrow> string list" where
  "transmitted tr =
    List.map_filter
      (\<lambda>e. case e of
             Net_sendbuffer_send h frame \<Rightarrow> Some frame
           | Ssl_write ch frame ret \<Rightarrow> if ret < 0 then None else Some frame
           | _ \<Rightarrow> None)
      tr"

text \<open>
  The conditions of the specification's section 4.5. Gating: the handshake for the
  authentication acknowledgement, the authenticated flag and the handshake for every other
  type, and a transport handle.
\<close>

definition gating_passes :: "WEB_CLIENT_REC \<Rightarrow> WEB_MESSAGE_REC \<Rightarrow> bool" where
  "gating_passes c msg \<longleftrightarrow>
    (if msg_type msg = WEB_MSG_AUTH_OK then handshake_done c
     else authenticated c \<and> handshake_done c) \<and>
    handle c \<noteq> None"

text \<open>The frame that the pipeline builds, if the key lookup and the encryption succeed.\<close>

definition frame_for :: "externals \<Rightarrow> WEB_CLIENT_REC \<Rightarrow> WEB_MESSAGE_REC \<Rightarrow> string option" where
  "frame_for ext c msg =
    (if encryption_enabled c then
       (case fe_web_crypto_get_key ext of
          None \<Rightarrow> None
        | Some key \<Rightarrow>
            (case fe_web_crypto_encrypt ext (fe_web_message_to_json msg) key of
               None \<Rightarrow> None
             | Some encrypted \<Rightarrow> Some (fe_web_websocket_create_frame ext 2 encrypted)))
     else Some (fe_web_websocket_create_frame ext 1 (fe_web_message_to_json msg)))"

definition ssl_write_fails :: "externals \<Rightarrow> WEB_CLIENT_REC \<Rightarrow> string \<Rightarrow> bool" where
  "ssl_write_fails ext c frame \<longleftrightarrow>
    use_ssl c \<and>
    (case ssl_channel c of None \<Rightarrow> False | Some ch \<Rightarrow> fe_web_ssl_write ext ch frame < 0)"

definition send_completes :: "externals \<Rightarrow> WEB_CLIENT_REC \<Rightarrow> WEB_MESSAGE_REC \<Rightarrow> bool" where
  "send_completes ext c msg \<longleftrightarrow>
    gating_passes c msg \<and>
    (case frame_for ext c msg of
       None \<Rightarrow> False
     | Some frame \<Rightarrow> \<not> ssl_write_fails ext c frame)"


text \<open>
  The abort points of section 4.5, in the order in which the sender meets them, and the
  one that a send stops at (none when it delivers).
\<close>

datatype abort_point =
    Client_absent
  | Not_ready
  | Handshake_not_done
  | Handle_absent
  | Key_absent
  | Encryption_failed
  | Ssl_write_failed

definition abort_point_of ::
  "externals \<Rightarrow> WEB_CLIENT_REC option \<Rightarrow> WEB_MESSAGE_REC \<Rightarrow> abort_point option" where
  "abort_point_of ext client msg =
    (case client of
       None \<Rightarrow> Some Client_absent
     | Some c \<Rightarrow>
         if msg_type msg \<noteq> WEB_MSG_AUTH_OK \<and> \<not> (authenticated c \<and> handshake_done c)
         then Some Not_ready
         else if msg_type msg = WEB_MSG_AUTH_OK \<and> \<not> handshake_done c
         then Some Handshake_not_done
         else if handle c = None then Some Handle_absent
         else if encryption_enabled c \<and> fe_web_crypto_get_key ext = None then Some Key_absent
         else
           (case frame_for ext c msg of
              None \<Rightarrow> Some Encryption_failed
            | Some frame \<Rightarrow>
                if ssl_write_fails ext c frame then Some Ssl_write_failed else None))"

text \<open>
  The two log lines that report progress rather than an abort: the one with the serialized
  JSON, and the one after a successful encryption.
\<close>

definition sending_line :: "WEB_CLIENT_REC \<Rightarrow> WEB_MESSAGE_REC \<Rightarrow> string" where
  "sending_line c msg =
    ''fe-web: ['' @ client_id c @ ''] Sending '' @ fe_web_type_to_string (msg_type msg) @
    '': '' @ fe_web_message_to_json msg"

definition encrypted_line :: "WEB_CLIENT_REC \<Rightarrow> WEB_MESSAGE_REC \<Rightarrow> string \<Rightarrow> string" where
  "encrypted_line c msg encrypted =
    ''fe-web: ['' @ client_id c @ ''] Encrypted '' @ fe_web_type_to_string (msg_type msg) @
    '' ('' @ printf_d (int (length (fe_web_message_to_json msg))) @ '' -> '' @
    printf_d (int (length encrypted)) @ '' bytes)''"

definition cipher_for :: "externals \<Rightarrow> WEB_MESSAGE_REC \<Rightarrow> string option" where
  "cipher_for ext msg =
    (case fe_web_crypto_get_key ext of
       None \<Rightarrow> None
     | Some key \<Rightarrow> fe_web_crypto_encrypt ext (fe_web_message_to_json msg) key)"

text \<open>The progress lines that a send has logged when it reaches an abort point.\<close>

definition progress_lines ::
  "externals \<Rightarrow> WEB_CLIENT_REC \<Rightarrow> WEB_MESSAGE_REC \<Rightarrow> abort_point \<Rightarrow> string list" where
  "progress_lines ext c msg a =
    (case a of
       Key_absent \<Rightarrow> [sending_line c msg]
     | Encryption_failed \<Rightarrow> [sending_line c msg]
     | Ssl_write_failed \<Rightarrow>
         sending_line c msg #
         (if encryption_enabled c
          then (case cipher_for ext msg of None \<Rightarrow> [] | Some e \<Rightarrow> [encrypted_line c msg e])
          else [])
     | _ \<Rightarrow> [])"

subsection \<open>Example inputs\<close>

text \<open>
  Inputs for the closed instances below. The first capabilities have no key and frame a
  payload as itself; the second have the key \<^verbatim>\<open>k\<close> and encrypt by reversing.
\<close>

definition example_externals :: externals where
  "example_externals =
    \<lparr>fe_web_crypto_get_key = None,
     fe_web_crypto_encrypt = (\<lambda>plain key. None),
     fe_web_websocket_create_frame = (\<lambda>opcode payload. payload),
     fe_web_ssl_write = (\<lambda>ch frame. 0)\<rparr>"

definition example_crypto_externals :: externals where
  "example_crypto_externals =
    \<lparr>fe_web_crypto_get_key = Some ''k'',
     fe_web_crypto_encrypt = (\<lambda>plain key. Some (rev plain)),
     fe_web_websocket_create_frame = (\<lambda>opcode payload. payload),
     fe_web_ssl_write = (\<lambda>ch frame. 0)\<rparr>"

definition example_client :: WEB_CLIENT_REC where
  "example_client =
    \<lparr>client_id = ''c1'', authenticated = True, handshake_done = True, handle = Some 1,
     encryption_enabled = False, use_ssl = False, ssl_channel = None, messages_sent = 0,
     server = Some 7, wants_all_servers = False\<rparr>"

text \<open>
  A registry of four clients: 0 is bound to server 7; 1 is bound to server 8; 2 is bound
  to server 8 and wants all servers, and has encryption enabled; 3 is bound to server 7 and
  is not authenticated.
\<close>

definition example_world :: world where
  "example_world =
    \<lparr>clients = (\<lambda>p.
       if p = 1 then example_client\<lparr>client_id := ''c2'', server := Some 8\<rparr>
       else if p = 2 then
         example_client\<lparr>client_id := ''c3'', server := Some 8, wants_all_servers := True,
           encryption_enabled := True\<rparr>
       else if p = 3 then example_client\<lparr>client_id := ''c4'', authenticated := False\<rparr>
       else example_client),
     web_clients = [0, 1, 2, 3],
     trace = []\<rparr>"

definition example_message :: "WEB_MESSAGE_TYPE \<Rightarrow> WEB_MESSAGE_REC" where
  "example_message t =
    \<lparr>msg_id = None, msg_type = t, server_tag = None, target = None, nick = None,
     msg_text = None, response_to = None, timestamp = 5, level = 0, is_own = False,
     extra_data = None\<rparr>"

section \<open>Theorems\<close>

subsection \<open>Message type names\<close>

text \<open>
  C9. The type-to-name table is injective on the 23 known message types, and none of
  them is named \<^verbatim>\<open>unknown\<close>: the serialized type field identifies the variant.
\<close>

theorem type_names_injective:
  "length known_types = 23 \<and>
   distinct (map fe_web_type_to_string known_types) \<and>
   inj_on fe_web_type_to_string (set known_types) \<and>
   (\<forall>t \<in> set known_types. fe_web_type_to_string t \<noteq> ''unknown'')"
proof -
  have d: "distinct (map fe_web_type_to_string known_types)"
    by (simp add: known_types_def)
  have k: "distinct known_types"
    by (simp add: known_types_def)
  have u: "\<forall>t \<in> set known_types. fe_web_type_to_string t \<noteq> ''unknown''"
    by (simp add: known_types_def)
  from d k have "inj_on fe_web_type_to_string (set known_types)"
    by (simp add: distinct_map)
  with d u show ?thesis
    by (simp add: known_types_def)
qed

theorem type_names_injective_witness:
  "WEB_MSG_TOPIC \<in> set known_types \<and> WEB_MSG_PONG \<in> set known_types \<and>
   fe_web_type_to_string WEB_MSG_TOPIC \<noteq> fe_web_type_to_string WEB_MSG_PONG \<and>
   fe_web_type_to_string WEB_MSG_TOPIC \<noteq> ''unknown''"
proof -
  have a: "WEB_MSG_TOPIC \<in> set known_types" and b: "WEB_MSG_PONG \<in> set known_types"
    by (simp_all add: known_types_def)
  from type_names_injective have "inj_on fe_web_type_to_string (set known_types)"
    and u: "\<forall>t \<in> set known_types. fe_web_type_to_string t \<noteq> ''unknown''"
    by blast+
  then have "fe_web_type_to_string WEB_MSG_TOPIC \<noteq> fe_web_type_to_string WEB_MSG_PONG"
    using a b by (auto dest: inj_onD)
  with a b u show ?thesis by blast
qed

subsection \<open>The escaper\<close>

lemma escape_loop_concat: "escape_loop p r = r @ concat (map escape_byte p)"
  by (induction p arbitrary: r) simp_all

lemma hex_value_digit: "d < 16 \<Longrightarrow> hex_value (hex_digit d) = Some d"
  by (simp add: hex_value_def hex_digit_def Let_def)

lemma hex4_printf:
  "hex4 (CHR ''0'') (CHR ''0'') (hex_digit (of_char c div 16)) (hex_digit (of_char c mod 16)) = Some (of_char c)"
proof -
  have a: "hex_value (CHR ''0'') = Some 0" by (simp add: hex_value_def)
  have b: "hex_value (hex_digit (of_char c div 16)) = Some (of_char c div 16)"
    by (rule hex_value_digit) (simp add: less_mult_imp_div_less)
  have c: "hex_value (hex_digit (of_char c mod 16)) = Some (of_char c mod 16)"
    by (rule hex_value_digit) simp
  show ?thesis by (simp add: hex4_def a b c)
qed

lemma json_unescape_plain:
  "c \<noteq> CHR 0x5C \<Longrightarrow> c \<noteq> CHR 0x22 \<Longrightarrow> (32::nat) \<le> of_char c \<Longrightarrow>
   json_unescape (c # cs) = map_option ((#) c) (json_unescape cs)"
  by simp

lemma json_unescape_simple:
  "simple_escape e = Some d \<Longrightarrow> e \<noteq> CHR ''u'' \<Longrightarrow>
   json_unescape (CHR 0x5C # e # r) = map_option ((#) d) (json_unescape r)"
  by simp

lemma json_unescape_u:
  "hex4 h1 h2 h3 h4 = Some n \<Longrightarrow> n < 0xD800 \<Longrightarrow>
   json_unescape (CHR 0x5C # CHR ''u'' # h1 # h2 # h3 # h4 # r) = map_option ((@) (utf8_encode n)) (json_unescape r)"
  by simp



declare json_unescape.simps [simp del]

lemma char_eq_byte: "(c = d) = ((of_char c :: nat) = of_char d)"
  by simp

lemma char_is_byte:
  "c = CHR 0x22 \<longleftrightarrow> (of_char c :: nat) = 34"
  "c = CHR 0x5C \<longleftrightarrow> (of_char c :: nat) = 92"
  "c = CHR 0x08 \<longleftrightarrow> (of_char c :: nat) = 8"
  "c = CHR 0x0C \<longleftrightarrow> (of_char c :: nat) = 12"
  "c = CHR 0x0A \<longleftrightarrow> (of_char c :: nat) = 10"
  "c = CHR 0x0D \<longleftrightarrow> (of_char c :: nat) = 13"
  "c = CHR 0x09 \<longleftrightarrow> (of_char c :: nat) = 9"
  using char_eq_byte[of c "CHR 0x22"] char_eq_byte[of c "CHR 0x5C"] char_eq_byte[of c "CHR 0x08"]
    char_eq_byte[of c "CHR 0x0C"] char_eq_byte[of c "CHR 0x0A"] char_eq_byte[of c "CHR 0x0D"]
    char_eq_byte[of c "CHR 0x09"]
  by simp_all

lemma escape_byte_high: "(of_char c :: nat) \<ge> 0x80 \<Longrightarrow> escape_byte c = [c]"
  by (simp add: escape_byte_def char_is_byte)

lemma hex_digit_ascii: "d < 16 \<Longrightarrow> (of_char (hex_digit d) :: nat) < 128"
  by (simp add: hex_digit_def)

lemma escape_byte_ascii:
  assumes "(of_char c :: nat) < 0x80" shows "\<forall>x \<in> set (escape_byte c). (of_char x :: nat) < 0x80"
proof -
  have "(of_char c :: nat) div 16 < 16" using assms by simp
  then have "(of_char (hex_digit (of_char c div 16)) :: nat) < 128"
    and "(of_char (hex_digit (of_char c mod 16)) :: nat) < 128"
    by (simp_all add: hex_digit_ascii)
  then show ?thesis using assms by (simp add: escape_byte_def printf_04x_def)
qed

lemma map_option_append1: "map_option ((@) [c]) x = map_option ((#) c) x"
  by (cases x) simp_all

lemma escape_byte_control:
  "\<not> special_byte c \<Longrightarrow> (of_char c :: nat) < 32 \<Longrightarrow> escape_byte c = CHR 0x5C # CHR ''u'' # printf_04x c"
  by (simp add: escape_byte_def special_byte_def)

lemma escape_byte_plain:
  "\<not> special_byte c \<Longrightarrow> (32 :: nat) \<le> of_char c \<Longrightarrow> escape_byte c = [c]"
  by (simp add: escape_byte_def special_byte_def)

lemma unescape_escape_byte:
  "json_unescape (escape_byte c @ t) = map_option ((#) c) (json_unescape t)"
proof (cases "special_byte c")
  case True
  then show ?thesis
    unfolding special_byte_def
    by (elim disjE) (simp_all add: escape_byte_def json_unescape_simple simple_escape_def)
next
  case False
  show ?thesis
  proof (cases "(of_char c :: nat) < 32")
    case True
    have e: "utf8_encode (of_char c) = [c]"
      using True by (simp add: utf8_encode_def)
    have "json_unescape (CHR 0x5C # CHR ''u'' # printf_04x c @ t) = map_option ((#) c) (json_unescape t)"
      using True by (simp add: printf_04x_def json_unescape_u[OF hex4_printf] e map_option_append1)
    then show ?thesis
      using True False by (simp add: escape_byte_control)
  next
    case big: False
    from False have "c \<noteq> CHR 0x5C" "c \<noteq> CHR 0x22"
      by (simp_all add: special_byte_def)
    then show ?thesis
      using big False by (simp add: escape_byte_plain json_unescape_plain)
  qed
qed

lemma unescape_escape: "json_unescape (concat (map escape_byte s)) = Some s"
  by (induction s) (simp_all add: unescape_escape_byte json_unescape.simps(1))

lemma utf8_from_start: "utf8_from 0 lo hi s = utf8_from 0 lo' hi' s"
  by (cases s) (simp_all add: Let_def)

lemma utf8_from_ascii:
  "\<forall>x \<in> set e. (of_char x :: nat) < 0x80 \<Longrightarrow> utf8_from 0 lo hi (e @ t) = utf8_from 0 lo hi t"
proof (induction e)
  case Nil
  then show ?case by simp
next
  case (Cons a e)
  then show ?case using utf8_from_start[of "0x80" "0xBF" _ lo hi] by (simp add: Let_def)
qed

lemma utf8_from_escape:
  "0x80 \<le> lo \<Longrightarrow> utf8_from k lo hi s \<Longrightarrow> utf8_from k lo hi (concat (map escape_byte s))"
proof (induction s arbitrary: k lo hi)
  case Nil
  then show ?case by simp
next
  case (Cons c s)
  show ?case
  proof (cases "(of_char c :: nat) < 0x80")
    case True
    with Cons.prems have k: "k = 0" and r: "utf8_from 0 0x80 0xBF s"
      by (simp_all add: Let_def split: if_splits)
    have r': "utf8_from 0 0x80 0xBF (concat (map escape_byte s))"
      by (rule Cons.IH[OF _ r]) simp
    have "utf8_from 0 lo hi (escape_byte c @ concat (map escape_byte s))
        = utf8_from 0 lo hi (concat (map escape_byte s))"
      using escape_byte_ascii[OF True] by (rule utf8_from_ascii)
    also have "\<dots> = utf8_from 0 0x80 0xBF (concat (map escape_byte s))"
      by (rule utf8_from_start)
    finally show ?thesis using r' k by simp
  next
    case False
    then have e: "escape_byte c = [c]" by (simp add: escape_byte_high)
    have step: "\<And>k' lo' hi'. 0x80 \<le> lo' \<Longrightarrow> utf8_from k' lo' hi' s \<Longrightarrow> utf8_from k' lo' hi' (concat (map escape_byte s))"
      by (rule Cons.IH)
    show ?thesis using Cons.prems False
      by (simp add: e Let_def step split: if_splits)
  qed
qed


text \<open>
  C4 (as stated). Escaping followed by a conforming JSON string decoder gives back every
  input string. This fails for a byte string that is not UTF-8: the escaper passes the byte
  \<open>0xFF\<close> through unchanged, and the result is not a JSON string.
\<close>

theorem escape_json_roundtrip_counterexample:
  "fe_web_escape_json (Some [CHR 0xFF]) = [CHR 0xFF] \<and>
   json_string_decode (fe_web_escape_json (Some [CHR 0xFF])) \<noteq> Some [CHR 0xFF]"
  by (simp add: json_string_decode_def fe_web_escape_json_def escape_byte_def
      utf8_wellformed_def)

text \<open>
  C4 (amended). \<^verbatim>\<open>fe_web_escape_json\<close> is total; on the absent input it returns the
  empty string; unescaping its output byte by byte gives back every input; and for every
  input that is well-formed UTF-8 the output is a JSON string that the decoder maps back to
  the input.
\<close>

theorem escape_json_roundtrip:
  "fe_web_escape_json None = [] \<and>
   json_unescape (fe_web_escape_json (Some s)) = Some s \<and>
   (utf8_wellformed s \<longrightarrow> json_string_decode (fe_web_escape_json (Some s)) = Some s)"
  by (simp add: json_string_decode_def fe_web_escape_json_def escape_loop_concat
      utf8_wellformed_def utf8_from_escape unescape_escape)

theorem escape_json_roundtrip_witness:
  "utf8_wellformed [CHR ''a'', CHR 0x22, CHR 0x0A, CHR 0x01, CHR 0xC3, CHR 0xA9] \<and>
   json_string_decode
     (fe_web_escape_json (Some [CHR ''a'', CHR 0x22, CHR 0x0A, CHR 0x01, CHR 0xC3, CHR 0xA9]))
     = Some [CHR ''a'', CHR 0x22, CHR 0x0A, CHR 0x01, CHR 0xC3, CHR 0xA9]"
proof -
  have w: "utf8_wellformed [CHR ''a'', CHR 0x22, CHR 0x0A, CHR 0x01, CHR 0xC3, CHR 0xA9]"
    by (simp add: utf8_wellformed_def)
  with escape_json_roundtrip[of "[CHR ''a'', CHR 0x22, CHR 0x0A, CHR 0x01, CHR 0xC3, CHR 0xA9]"]
  show ?thesis by blast
qed

subsection \<open>The ID generator\<close>

declare decimal.simps [simp del]

lemma digit_char_inj: "a < 10 \<Longrightarrow> b < 10 \<Longrightarrow> digit_char a = digit_char b \<Longrightarrow> a = b"
proof -
  assume a: "a < 10" and b: "b < 10" and e: "digit_char a = digit_char b"
  from e have "(of_char (digit_char a) :: nat) = of_char (digit_char b)" by simp
  with a b show "a = b" by (simp add: digit_char_def)
qed

lemma digit_char_0: "digit_char 0 = CHR ''0''"
proof -
  have "(of_char (digit_char 0) :: nat) = of_char (CHR ''0'')" by (simp add: digit_char_def)
  then show ?thesis by (simp only: of_char_eq_iff)
qed

lemma decimal_small: "n < 10 \<Longrightarrow> decimal n = [digit_char n]"
  by (subst decimal.simps) simp

lemma decimal_step: "10 \<le> n \<Longrightarrow> decimal n = decimal (n div 10) @ [digit_char (n mod 10)]"
  by (subst decimal.simps) simp

lemma zero_pad_decimal:
  assumes "n < 10000" shows "zero_pad 4 (decimal n) = four_digits n"
proof -
  consider "n < 10" | "10 \<le> n" "n < 100" | "100 \<le> n" "n < 1000" | "1000 \<le> n" "n < 10000"
    using assms by linarith
  then show ?thesis
  proof cases
    case 1
    then show ?thesis by (simp add: decimal_small zero_pad_def four_digits_def digit_char_0 numeral_3_eq_3)
  next
    case 2
    then have "n div 10 < 10" by simp
    with 2 show ?thesis
      by (simp add: decimal_step decimal_small zero_pad_def four_digits_def digit_char_0 numeral_2_eq_2)
  next
    case 3
    then have a: "n div 10 < 100" "10 \<le> n div 10" "n div 10 div 10 < 10" by simp_all
    have d: "decimal n = [digit_char (n div 10 div 10), digit_char (n div 10 mod 10), digit_char (n mod 10)]"
      using 3 a by (simp add: decimal_step decimal_small)
    have "n div 100 < 10" using 3 by simp
    then show ?thesis using 3
      by (simp add: d zero_pad_def four_digits_def digit_char_0 div_mult2_eq[symmetric])
  next
    case 4
    then have a: "10 \<le> n div 10" "10 \<le> n div 10 div 10" "n div 10 div 10 div 10 < 10" by simp_all
    have d: "decimal n = [digit_char (n div 10 div 10 div 10), digit_char (n div 10 div 10 mod 10), digit_char (n div 10 mod 10), digit_char (n mod 10)]"
      using 4 a by (simp add: decimal_step decimal_small)
    have "n div 1000 < 10" using 4 by simp
    then show ?thesis using 4
      by (simp add: d zero_pad_def four_digits_def digit_char_0 div_mult2_eq[symmetric])
  qed
qed

lemma div_mod_10_eq:
  assumes "(x::nat) div 10 = y div 10" "x mod 10 = y mod 10" shows "x = y"
proof -
  have "x = 10 * (x div 10) + x mod 10" by simp
  also have "\<dots> = 10 * (y div 10) + y mod 10" using assms by simp
  finally show ?thesis by simp
qed

lemma four_digits_inj:
  assumes "a < 10000" "b < 10000" "four_digits a = four_digits b" shows "a = b"
proof -
  have m: "\<And>x y. digit_char (x mod 10) = digit_char (y mod 10) \<Longrightarrow> x mod 10 = y mod 10"
    by (rule digit_char_inj) simp_all
  have c: "\<And>n::nat. n div 100 = n div 10 div 10" "\<And>n::nat. n div 1000 = n div 10 div 10 div 10"
    by (simp_all add: div_mult2_eq[symmetric])
  from assms(3) have e0: "digit_char (a div 1000 mod 10) = digit_char (b div 1000 mod 10)"
    "digit_char (a div 100 mod 10) = digit_char (b div 100 mod 10)"
    "digit_char (a div 10 mod 10) = digit_char (b div 10 mod 10)"
    "digit_char (a mod 10) = digit_char (b mod 10)"
    by (simp_all add: four_digits_def)
  have e: "a div 10 div 10 div 10 mod 10 = b div 10 div 10 div 10 mod 10"
    "a div 10 div 10 mod 10 = b div 10 div 10 mod 10"
    "a div 10 mod 10 = b div 10 mod 10" "a mod 10 = b mod 10"
    using e0[THEN m] by (simp_all only: c)
  have z: "a div 10 div 10 div 10 div 10 = b div 10 div 10 div 10 div 10"
    using assms(1,2) by (simp add: div_mult2_eq[symmetric])
  from z e(1) have "a div 10 div 10 div 10 = b div 10 div 10 div 10" by (rule div_mod_10_eq)
  from this e(2) have "a div 10 div 10 = b div 10 div 10" by (rule div_mod_10_eq)
  from this e(3) have "a div 10 = b div 10" by (rule div_mod_10_eq)
  from this e(4) show ?thesis by (rule div_mod_10_eq)
qed

lemma generate_id_eq:
  assumes "0 \<le> c" "c < 10000"
  shows "fe_web_generate_message_id now c =
    (printf_d now @ ''-'' @ four_digits (nat c), (c + 1) mod 10000)"
proof -
  have p: "printf_04d c = four_digits (nat c)"
    using assms by (simp add: printf_04d_def zero_pad_decimal)
  have m: "(c + 1) mod 10000 = (if c + 1 \<ge> 10000 then 0 else c + 1)"
  proof (cases "c + 1 \<ge> 10000")
    case True
    with assms have "c = 9999" by linarith
    then show ?thesis by simp
  next
    case False
    with assms show ?thesis by simp
  qed
  show ?thesis
    unfolding fe_web_generate_message_id_def Let_def p m by simp
qed

lemma generate_ids_length: "length (fst (generate_ids nows c)) = length nows"
  by (induction nows arbitrary: c) (simp_all add: split_beta Let_def)

lemma generate_ids_nth:
  "0 \<le> c \<Longrightarrow> c < 10000 \<Longrightarrow> i < length nows \<Longrightarrow>
   fst (generate_ids nows c) ! i =
     printf_d (nows ! i) @ ''-'' @ four_digits (nat ((c + int i) mod 10000))"
proof (induction nows arbitrary: c i)
  case Nil
  then show ?case by simp
next
  case (Cons now nows)
  have r: "0 \<le> (c + 1) mod 10000" "(c + 1) mod 10000 < 10000" by simp_all
  show ?case
  proof (cases i)
    case 0
    then show ?thesis using Cons.prems by (simp add: generate_id_eq split_beta)
  next
    case (Suc j)
    with Cons.prems have j: "j < length nows" by simp
    have "((c + 1) mod 10000 + int j) mod 10000 = (c + int (Suc j)) mod 10000"
      by (simp add: mod_add_left_eq add.assoc)
    with Cons.IH[OF r j] show ?thesis
      using Suc Cons.prems by (simp add: generate_id_eq split_beta add.commute)
  qed
qed

lemma counter_mod_inj:
  assumes "i < 10000" "j < 10000" "(c + int i) mod 10000 = (c + int j) mod 10000"
  shows "i = j"
proof -
  from assms(3) have "10000 dvd (c + int i) - (c + int j)"
    by (simp only: mod_eq_dvd_iff)
  then have "10000 dvd int i - int j" by simp
  then obtain k where k: "int i - int j = 10000 * k" by (auto simp add: dvd_def)
  have "k = 0"
  proof (rule ccontr)
    assume "k \<noteq> 0"
    then consider "k \<ge> 1" | "k \<le> -1" by linarith
    then show False using k assms(1,2) by cases linarith+
  qed
  with k show ?thesis by simp
qed

lemma generate_ids_counter:
  "0 \<le> c \<Longrightarrow> c < 10000 \<Longrightarrow> snd (generate_ids nows c) = (c + int (length nows)) mod 10000"
proof (induction nows arbitrary: c)
  case Nil
  then show ?case by simp
next
  case (Cons now nows)
  have r: "0 \<le> (c + 1) mod 10000" "(c + 1) mod 10000 < 10000" by simp_all
  have "((c + 1) mod 10000 + int (length nows)) mod 10000 = (c + int (Suc (length nows))) mod 10000"
    by (simp add: mod_add_left_eq add.assoc)
  with Cons.IH[OF r] show ?case
    using Cons.prems by (simp add: generate_id_eq split_beta add.commute)
qed

text \<open>
  C5. While the counter is in the range 0 to 9999 (it starts at 0 and every call keeps it
  there), a call returns the clock reading, a hyphen and the counter as four decimal
  digits, and leaves the counter incremented, wrapped to 0 after 9999. So 10000 consecutive
  calls with one clock reading return pairwise distinct IDs, and the next call returns the
  ID of the first.
\<close>

theorem generate_message_id_contract:
  assumes "0 \<le> c" and "c < 10000"
  shows "counter_init = 0 \<and>
    fe_web_generate_message_id now c =
      (printf_d now @ ''-'' @ four_digits (nat c), if c = 9999 then 0 else c + 1) \<and>
    distinct (fst (generate_ids (replicate 10000 now) c)) \<and>
    fst (generate_ids (replicate 10001 now) c) ! 10000 =
      fst (generate_ids (replicate 10001 now) c) ! 0 \<and>
    0 \<le> snd (generate_ids nows c) \<and> snd (generate_ids nows c) < 10000"
proof (intro conjI)
  show "counter_init = 0" by (simp add: counter_init_def)
next
  have "(c + 1) mod 10000 = (if c = 9999 then 0 else c + 1)"
    using assms by simp
  then show "fe_web_generate_message_id now c =
      (printf_d now @ ''-'' @ four_digits (nat c), if c = 9999 then 0 else c + 1)"
    using assms by (simp add: generate_id_eq)
next
  let ?ids = "fst (generate_ids (replicate 10000 now) c)"
  have len: "length ?ids = 10000" by (simp add: generate_ids_length)
  have nth: "?ids ! i = printf_d now @ ''-'' @ four_digits (nat ((c + int i) mod 10000))"
    if "i < 10000" for i
    using generate_ids_nth[OF assms, of i "replicate 10000 now"] that by simp
  have "i = j" if "i < 10000" "j < 10000" "?ids ! i = ?ids ! j" for i j
  proof -
    from that have "four_digits (nat ((c + int i) mod 10000)) = four_digits (nat ((c + int j) mod 10000))"
      by (simp add: nth)
    then have "nat ((c + int i) mod 10000) = nat ((c + int j) mod 10000)"
      by (rule four_digits_inj[rotated 2]) simp_all
    then have "(c + int i) mod 10000 = (c + int j) mod 10000" by simp
    with that(1,2) show ?thesis by (rule counter_mod_inj)
  qed
  then show "distinct ?ids"
    unfolding distinct_conv_nth len by blast
next
  have "fst (generate_ids (replicate 10001 now) c) ! 10000 =
      printf_d now @ ''-'' @ four_digits (nat ((c + int 10000) mod 10000))"
    using generate_ids_nth[OF assms, of 10000 "replicate 10001 now"] by simp
  moreover have "fst (generate_ids (replicate 10001 now) c) ! 0 =
      printf_d now @ ''-'' @ four_digits (nat ((c + int 0) mod 10000))"
    using generate_ids_nth[OF assms, of 0 "replicate 10001 now"] by simp
  ultimately show "fst (generate_ids (replicate 10001 now) c) ! 10000 =
      fst (generate_ids (replicate 10001 now) c) ! 0"
    by simp
next
  show "0 \<le> snd (generate_ids nows c)" using assms by (simp add: generate_ids_counter)
next
  show "snd (generate_ids nows c) < 10000" using assms by (simp add: generate_ids_counter)
qed

theorem generate_message_id_contract_witness:
  "0 \<le> counter_init \<and> counter_init < 10000 \<and>
   fe_web_generate_message_id 5 counter_init = (''5-0000'', 1) \<and>
   distinct (fst (generate_ids (replicate 10000 5) counter_init)) \<and>
   fst (generate_ids (replicate 10001 5) counter_init) ! 10000 =
     fst (generate_ids (replicate 10001 5) counter_init) ! 0"
proof -
  have a: "0 \<le> counter_init" and b: "counter_init < 10000"
    by (simp_all add: counter_init_def)
  have "printf_d 5 @ ''-'' @ four_digits (nat 0) = ''5-0000''"
    by code_simp
  with generate_message_id_contract[OF a b, of 5] a b show ?thesis
    by (simp add: counter_init_def)
qed

subsection \<open>The serializer\<close>

lemma join_commas_Cons: "join_commas (x # xs) = x @ concat (map (\<lambda>y. '','' @ y) xs)"
  by (induction xs arbitrary: x) simp_all

lemma first_byte_bracket: "first_byte v = CHR ''['' \<longleftrightarrow> starts_with_bracket v"
  by (cases v) (simp_all add: first_byte_def starts_with_bracket_def)

lemma escape_None: "fe_web_escape_json None = []"
  by (simp add: fe_web_escape_json_def)

lemma escape_empty: "fe_web_escape_json (Some []) = []"
  by (simp add: fe_web_escape_json_def)

lemma extra_loop_step:
  \<open>extra_loop (e # entries) first json =
    extra_loop entries False
      ((if first then json else json @ '','') @ json_member (extra_member e))\<close>
  by (cases e)
    (simp add: json_member_def extra_member_def json_quoted_def first_byte_bracket
      escape_None escape_empty Let_def split: option.split)

lemma extra_loop_rest:
  "extra_loop entries False json =
    json @ concat (map (\<lambda>y. '','' @ y) (map (json_member \<circ> extra_member) entries))"
proof (induction entries arbitrary: json)
  case Nil
  then show ?case by simp
next
  case (Cons e entries)
  show ?case
    unfolding extra_loop_step Cons.IH by (simp add: comp_def)
qed

lemma extra_loop_first:
  "entries \<noteq> [] \<Longrightarrow>
   extra_loop entries True json = json @ join_commas (map (json_member \<circ> extra_member) entries)"
  by (cases entries) (simp_all add: extra_loop_step extra_loop_rest join_commas_Cons comp_def)

lemma present_simps:
  "present [] = []"
  "present (None # xs) = present xs"
  "present (Some x # xs) = x # present xs"
  by (simp_all add: present_def List.map_filter_simps)

lemma opt_append:
  "(case x of None \<Rightarrow> j | Some s \<Rightarrow> j @ f s) = j @ (case x of None \<Rightarrow> [] | Some s \<Rightarrow> f s)"
  by (cases x) simp_all

lemma if_append: "(if c then j @ a else j) = j @ (if c then a else [])"
  by simp

lemma if_append2: "(if c then j @ a else j @ b) = j @ (if c then a else b)"
  by simp

lemma extra_part:
  \<open>(case extra_data msg of None \<Rightarrow> json
     | Some entries \<Rightarrow> if length entries > 0
          then extra_loop entries True (json @ '',"extra":{'') @ ''}'' else json)
   = json @ (if extra_entries msg \<noteq> [] then '',"extra":'' @ extra_object (extra_entries msg) else [])\<close>
  by (cases "extra_data msg")
    (simp_all add: extra_entries_def extra_loop_first extra_object_def)

lemma to_json_flat:
  \<open>fe_web_message_to_json msg =
    ''{'' @
    (case msg_id msg of None \<Rightarrow> [] | Some s \<Rightarrow> ''"id":"'' @ fe_web_escape_json (Some s) @ ''",'') @
    ''"type":"'' @ fe_web_type_to_string (msg_type msg) @ ''"'' @
    (case response_to msg of None \<Rightarrow> []
     | Some s \<Rightarrow> '',"response_to":"'' @ fe_web_escape_json (Some s) @ ''"'') @
    (case server_tag msg of None \<Rightarrow> []
     | Some s \<Rightarrow> '',"server":"'' @ fe_web_escape_json (Some s) @ ''"'') @
    (case target msg of None \<Rightarrow> []
     | Some s \<Rightarrow> '',"channel":"'' @ fe_web_escape_json (Some s) @ ''"'') @
    (case nick msg of None \<Rightarrow> []
     | Some s \<Rightarrow> '',"nick":"'' @ fe_web_escape_json (Some s) @ ''"'') @
    (case msg_text msg of None \<Rightarrow> []
     | Some s \<Rightarrow>
         if msg_type msg = WEB_MSG_NICKLIST_UPDATE
         then '',"task":"'' @ fe_web_escape_json (Some s) @ ''"''
         else '',"text":"'' @ fe_web_escape_json (Some s) @ ''"'') @
    '',"timestamp":'' @ printf_d (timestamp msg) @
    (if level msg \<noteq> 0 then '',"level":'' @ printf_d (level msg) else []) @
    (if msg_type msg = WEB_MSG_MESSAGE
     then '',"is_own":'' @ (if is_own msg then ''true'' else ''false'') else []) @
    (if extra_entries msg \<noteq> [] then '',"extra":'' @ extra_object (extra_entries msg) else []) @
    ''}''\<close>
  unfolding fe_web_message_to_json_def Let_def extra_part
  apply (simp only: opt_append if_append if_append2)
  apply (simp only: append_assoc)
  done

lemma render_head:
  "join_commas (map json_member (present (s # Some t # rest))) =
    (case s of None \<Rightarrow> [] | Some m \<Rightarrow> json_member m @ '','') @ json_member t @
    concat (map (\<lambda>m. '','' @ json_member m) (present rest))"
  by (cases s) (simp_all add: present_simps join_commas_Cons comp_def)

lemma concat_present:
  "concat (map f (present (x # xs))) =
    (case x of None \<Rightarrow> [] | Some m \<Rightarrow> f m) @ concat (map f (present xs))"
  by (cases x) (simp_all add: present_simps)

lemma to_json_slots:
  "fe_web_message_to_json msg = render_object (present (message_slots msg))"
proof -
  have s1: \<open>(case msg_id msg of None \<Rightarrow> [] | Some s \<Rightarrow> ''"id":"'' @ fe_web_escape_json (Some s) @ ''",'')
      = (case map_option (\<lambda>s. (''id'', json_quoted s)) (msg_id msg) of
           None \<Rightarrow> [] | Some m \<Rightarrow> json_member m @ '','')\<close>
    by (cases "msg_id msg") (simp_all add: json_member_def json_quoted_def)
  have s2: \<open>''"type":"'' @ fe_web_type_to_string (msg_type msg) @ ''"''
      = json_member (''type'', [CHR 0x22] @ fe_web_type_to_string (msg_type msg) @ [CHR 0x22])\<close>
    by (simp add: json_member_def)
  have s3: \<open>(case response_to msg of None \<Rightarrow> []
       | Some s \<Rightarrow> '',"response_to":"'' @ fe_web_escape_json (Some s) @ ''"'')
      = (case map_option (\<lambda>s. (''response_to'', json_quoted s)) (response_to msg) of
           None \<Rightarrow> [] | Some m \<Rightarrow> '','' @ json_member m)\<close>
    by (cases "response_to msg") (simp_all add: json_member_def json_quoted_def)
  have s4: \<open>(case server_tag msg of None \<Rightarrow> []
       | Some s \<Rightarrow> '',"server":"'' @ fe_web_escape_json (Some s) @ ''"'')
      = (case map_option (\<lambda>s. (''server'', json_quoted s)) (server_tag msg) of
           None \<Rightarrow> [] | Some m \<Rightarrow> '','' @ json_member m)\<close>
    by (cases "server_tag msg") (simp_all add: json_member_def json_quoted_def)
  have s5: \<open>(case target msg of None \<Rightarrow> []
       | Some s \<Rightarrow> '',"channel":"'' @ fe_web_escape_json (Some s) @ ''"'')
      = (case map_option (\<lambda>s. (''channel'', json_quoted s)) (target msg) of
           None \<Rightarrow> [] | Some m \<Rightarrow> '','' @ json_member m)\<close>
    by (cases "target msg") (simp_all add: json_member_def json_quoted_def)
  have s6: \<open>(case nick msg of None \<Rightarrow> []
       | Some s \<Rightarrow> '',"nick":"'' @ fe_web_escape_json (Some s) @ ''"'')
      = (case map_option (\<lambda>s. (''nick'', json_quoted s)) (nick msg) of
           None \<Rightarrow> [] | Some m \<Rightarrow> '','' @ json_member m)\<close>
    by (cases "nick msg") (simp_all add: json_member_def json_quoted_def)
  have s7: \<open>(case msg_text msg of None \<Rightarrow> []
       | Some s \<Rightarrow>
           if msg_type msg = WEB_MSG_NICKLIST_UPDATE
           then '',"task":"'' @ fe_web_escape_json (Some s) @ ''"''
           else '',"text":"'' @ fe_web_escape_json (Some s) @ ''"'')
      = (case map_option
           (\<lambda>s. (if msg_type msg = WEB_MSG_NICKLIST_UPDATE then ''task'' else ''text'', json_quoted s))
           (msg_text msg) of
           None \<Rightarrow> [] | Some m \<Rightarrow> '','' @ json_member m)\<close>
    by (cases "msg_text msg") (simp_all add: json_member_def json_quoted_def)
  have s8: \<open>'',"timestamp":'' @ printf_d (timestamp msg)
      = '','' @ json_member (''timestamp'', printf_d (timestamp msg))\<close>
    by (simp add: json_member_def)
  have s9: \<open>(if level msg \<noteq> 0 then '',"level":'' @ printf_d (level msg) else [])
      = (case (if level msg \<noteq> 0 then Some (''level'', printf_d (level msg)) else None) of
           None \<Rightarrow> [] | Some m \<Rightarrow> '','' @ json_member m)\<close>
    by (simp add: json_member_def)
  have s10: \<open>(if msg_type msg = WEB_MSG_MESSAGE
       then '',"is_own":'' @ (if is_own msg then ''true'' else ''false'') else [])
      = (case (if msg_type msg = WEB_MSG_MESSAGE
               then Some (''is_own'', if is_own msg then ''true'' else ''false'') else None) of
           None \<Rightarrow> [] | Some m \<Rightarrow> '','' @ json_member m)\<close>
    by (simp add: json_member_def)
  have s11: \<open>(if extra_entries msg \<noteq> [] then '',"extra":'' @ extra_object (extra_entries msg) else [])
      = (case (if extra_entries msg \<noteq> []
               then Some (''extra'', extra_object (extra_entries msg)) else None) of
           None \<Rightarrow> [] | Some m \<Rightarrow> '','' @ json_member m)\<close>
    by (simp add: json_member_def)
  have s8': \<open>CHR '','' # json_member (''timestamp'', printf_d (timestamp msg))
      = '',"timestamp":'' @ printf_d (timestamp msg)\<close>
    by (simp add: json_member_def)
  show ?thesis
    unfolding to_json_flat s1 s3 s4 s5 s6 s7 s9 s10 s11
    unfolding render_object_def message_slots_def render_head
    unfolding concat_present s2[symmetric]
    by (simp only: present_simps list.map concat.simps append_assoc append.simps option.case s8')
qed

lemma single_line_Nil: "single_line []"
  by (simp add: single_line_def)

lemma single_line_Cons: "single_line (c # s) \<longleftrightarrow> \<not> line_break c \<and> single_line s"
  by (simp add: single_line_def)

lemma single_line_append: "single_line (a @ b) \<longleftrightarrow> single_line a \<and> single_line b"
  by (auto simp add: single_line_def list_ex_iff)

lemma single_line_iff: "single_line s \<longleftrightarrow> (\<forall>c \<in> set s. \<not> line_break c)"
  by (simp add: single_line_def list_ex_iff)

lemma printable_no_break: "(32::nat) \<le> of_char c \<Longrightarrow> \<not> line_break c"
  unfolding line_break_def by fastforce

lemma single_line_printable: "\<forall>c \<in> set s. (32::nat) \<le> of_char c \<Longrightarrow> single_line s"
  by (simp add: single_line_iff printable_no_break)

lemma hex_digit_printable: "d < 16 \<Longrightarrow> (32::nat) \<le> of_char (hex_digit d)"
  by (simp add: hex_digit_def)

lemma escape_byte_printable: "\<forall>x \<in> set (escape_byte c). (32::nat) \<le> of_char x"
proof (cases "special_byte c")
  case True
  then show ?thesis
    unfolding special_byte_def by (elim disjE) (simp_all add: escape_byte_def)
next
  case False
  show ?thesis
  proof (cases "(of_char c :: nat) < 32")
    case True
    then have "(of_char c :: nat) div 16 < 16" by simp
    then have "(32::nat) \<le> of_char (hex_digit (of_char c div 16))"
      and "(32::nat) \<le> of_char (hex_digit (of_char c mod 16))"
      by (simp_all add: hex_digit_printable)
    then show ?thesis
      using True False by (simp add: escape_byte_control printf_04x_def)
  next
    case big: False
    then show ?thesis using False by (simp add: escape_byte_plain)
  qed
qed

lemma escape_printable: "\<forall>x \<in> set (fe_web_escape_json s). (32::nat) \<le> of_char x"
  using escape_byte_printable
  by (cases s) (auto simp add: fe_web_escape_json_def escape_loop_concat)

lemma single_line_escape: "single_line (fe_web_escape_json s)"
  by (rule single_line_printable) (rule escape_printable)

lemma decimal_printable: "\<forall>c \<in> set (decimal n). (32::nat) \<le> of_char c"
proof (induction n rule: decimal.induct)
  case (1 n)
  show ?case
  proof (cases "n < 10")
    case True
    then show ?thesis by (simp add: decimal_small digit_char_def)
  next
    case False
    have "(32::nat) \<le> of_char (digit_char (n mod 10))" by (simp add: digit_char_def)
    with False 1 show ?thesis by (simp add: decimal_step)
  qed
qed

lemma single_line_printf_d: "single_line (printf_d i)"
  by (rule single_line_printable) (simp add: printf_d_def decimal_printable)

lemma single_line_type: "single_line (fe_web_type_to_string t)"
  by (cases t) (simp_all add: single_line_def line_break_def)

lemma single_line_join:
  "single_line (join_commas xs) \<longleftrightarrow> (\<forall>x \<in> set xs. single_line x)"
proof (cases xs)
  case Nil
  then show ?thesis by (simp add: single_line_Nil)
next
  case (Cons x ys)
  have "single_line (concat (map (\<lambda>y. '','' @ y) ys)) \<longleftrightarrow> (\<forall>y \<in> set ys. single_line y)"
    by (induction ys) (simp_all add: single_line_Nil single_line_append single_line_Cons line_break_def)
  then show ?thesis
    using Cons by (simp add: join_commas_Cons single_line_append)
qed

lemma single_line_extra_member:
  "single_line (json_member (extra_member e)) \<longleftrightarrow>
    (\<forall>v. snd e = Some v \<and> fst e = ''params'' \<and> starts_with_bracket v \<longrightarrow> single_line v)"
  by (cases "snd e")
    (auto simp add: json_member_def extra_member_def json_quoted_def single_line_append
      single_line_Cons single_line_Nil single_line_escape line_break_def)

lemma set_map_filter: "set (List.map_filter f xs) = {y. \<exists>x \<in> set xs. f x = Some y}"
  by (induction xs) (auto simp add: List.map_filter_simps split: option.splits)

lemma set_raw_values:
  "set (raw_values msg) =
    {v. \<exists>e \<in> set (extra_entries msg). snd e = Some v \<and> fst e = ''params'' \<and> starts_with_bracket v}"
  unfolding raw_values_def set_map_filter
  by (auto split: option.splits if_splits)

lemma single_line_extra_object:
  "single_line (extra_object (extra_entries msg)) \<longleftrightarrow> (\<forall>v \<in> set (raw_values msg). single_line v)"
  unfolding extra_object_def set_raw_values
  by (auto simp add: single_line_append single_line_Cons single_line_Nil single_line_join
      single_line_extra_member line_break_def)

lemma raw_values_empty: "extra_entries msg = [] \<Longrightarrow> raw_values msg = []"
  by (simp add: raw_values_def List.map_filter_simps)

lemma single_line_to_json:
  "single_line (fe_web_message_to_json msg) \<longleftrightarrow> (\<forall>v \<in> set (raw_values msg). single_line v)"
  unfolding to_json_flat
  by (simp add: single_line_append single_line_Cons single_line_Nil single_line_escape
      single_line_printf_d single_line_type single_line_extra_object raw_values_empty line_break_def
      split: option.split)

lemma extra_entries_update:
  "extra_entries (msg\<lparr>extra_data := e\<rparr>) = (case e of None \<Rightarrow> [] | Some entries \<Rightarrow> entries)"
  by (simp add: extra_entries_def)

lemma extra_entries_text: "extra_entries (msg\<lparr>msg_text := t\<rparr>) = extra_entries msg"
  by (simp add: extra_entries_def)

lemma escape_inj: "fe_web_escape_json (Some a) = fe_web_escape_json (Some b) \<Longrightarrow> a = b"
proof -
  assume "fe_web_escape_json (Some a) = fe_web_escape_json (Some b)"
  then have "json_unescape (fe_web_escape_json (Some a)) = json_unescape (fe_web_escape_json (Some b))"
    by simp
  then show "a = b"
    by (simp add: fe_web_escape_json_def escape_loop_concat unescape_escape)
qed

lemma extra_keys_distinct:
  "distinct (map fst entries) \<Longrightarrow> distinct (map (fst \<circ> extra_member) entries)"
proof -
  assume d: "distinct (map fst entries)"
  have "map (fst \<circ> extra_member) entries = map (\<lambda>k. fe_web_escape_json (Some k)) (map fst entries)"
    by (simp add: extra_member_def comp_def)
  moreover have "inj (\<lambda>k. fe_web_escape_json (Some k))"
    by (rule injI) (rule escape_inj)
  ultimately show ?thesis
    using d by (simp only: distinct_map) (auto intro: inj_on_subset)
qed

text \<open>
  C6. Whatever the extension map is, the output is a head that does not depend on the map,
  then nothing when the map is absent or empty and otherwise the member \<^verbatim>\<open>extra\<close> with one
  entry per entry of the map in iteration order, then the closing brace. In an entry the key
  is escaped; the value is copied as it is iff the key is \<^verbatim>\<open>params\<close> and the value starts
  with a bracket, and is an escaped JSON string otherwise. Distinct keys give distinct
  escaped keys, so each key appears once.
\<close>

theorem extra_object_rendering:
  \<open>(\<exists>head. \<forall>e. fe_web_message_to_json (msg\<lparr>extra_data := e\<rparr>) =
      head @
      (case e of
         None \<Rightarrow> []
       | Some entries \<Rightarrow> if entries = [] then [] else '',"extra":'' @ extra_object entries) @
      ''}'') \<and>
    (distinct (map fst entries) \<longrightarrow> distinct (map (fst \<circ> extra_member) entries))\<close>
proof (rule conjI)
  define head where \<open>head =
    ''{'' @
    (case msg_id msg of None \<Rightarrow> [] | Some s \<Rightarrow> ''"id":"'' @ fe_web_escape_json (Some s) @ ''",'') @
    ''"type":"'' @ fe_web_type_to_string (msg_type msg) @ ''"'' @
    (case response_to msg of None \<Rightarrow> []
     | Some s \<Rightarrow> '',"response_to":"'' @ fe_web_escape_json (Some s) @ ''"'') @
    (case server_tag msg of None \<Rightarrow> []
     | Some s \<Rightarrow> '',"server":"'' @ fe_web_escape_json (Some s) @ ''"'') @
    (case target msg of None \<Rightarrow> []
     | Some s \<Rightarrow> '',"channel":"'' @ fe_web_escape_json (Some s) @ ''"'') @
    (case nick msg of None \<Rightarrow> []
     | Some s \<Rightarrow> '',"nick":"'' @ fe_web_escape_json (Some s) @ ''"'') @
    (case msg_text msg of None \<Rightarrow> []
     | Some s \<Rightarrow>
         if msg_type msg = WEB_MSG_NICKLIST_UPDATE
         then '',"task":"'' @ fe_web_escape_json (Some s) @ ''"''
         else '',"text":"'' @ fe_web_escape_json (Some s) @ ''"'') @
    '',"timestamp":'' @ printf_d (timestamp msg) @
    (if level msg \<noteq> 0 then '',"level":'' @ printf_d (level msg) else []) @
    (if msg_type msg = WEB_MSG_MESSAGE
     then '',"is_own":'' @ (if is_own msg then ''true'' else ''false'') else [])\<close>
  have \<open>fe_web_message_to_json (msg\<lparr>extra_data := e\<rparr>) =
      head @
      (case e of
         None \<Rightarrow> []
       | Some entries \<Rightarrow> if entries = [] then [] else '',"extra":'' @ extra_object entries) @
      ''}''\<close> for e
    unfolding to_json_flat head_def extra_entries_update
    by (cases e) (simp_all cong: option.case_cong)
  then show \<open>\<exists>head. \<forall>e. fe_web_message_to_json (msg\<lparr>extra_data := e\<rparr>) =
      head @
      (case e of
         None \<Rightarrow> []
       | Some entries \<Rightarrow> if entries = [] then [] else '',"extra":'' @ extra_object entries) @
      ''}''\<close>
    by blast
next
  show "distinct (map fst entries) \<longrightarrow> distinct (map (fst \<circ> extra_member) entries)"
    by (simp add: extra_keys_distinct)
qed

theorem extra_object_rendering_witness:
  \<open>distinct (map fst [(''params'', Some ''[1,2,3]''), (''note'', Some [CHR ''a'', CHR 0x22, CHR ''b''])]) \<and>
   distinct (map (fst \<circ> extra_member)
     [(''params'', Some ''[1,2,3]''), (''note'', Some [CHR ''a'', CHR 0x22, CHR ''b''])]) \<and>
   fe_web_message_to_json
     \<lparr>msg_id = None, msg_type = WEB_MSG_PONG, server_tag = None, target = None,
      nick = None, msg_text = None, response_to = None, timestamp = 5, level = 0,
      is_own = False,
      extra_data = Some [(''params'', Some ''[1,2,3]''), (''note'', Some [CHR ''a'', CHR 0x22, CHR ''b''])]\<rparr>
     = ''{"type":"pong","timestamp":5,"extra":{"params":[1,2,3],"note":"a'' @ [CHR 0x5C] @ ''"b"}}'' \<and>
   fe_web_message_to_json
     \<lparr>msg_id = None, msg_type = WEB_MSG_PONG, server_tag = None, target = None,
      nick = None, msg_text = None, response_to = None, timestamp = 5, level = 0,
      is_own = False, extra_data = Some []\<rparr>
     = ''{"type":"pong","timestamp":5}''\<close>
proof -
  let ?es = "[(''params'', Some ''[1,2,3]''), (''note'', Some [CHR ''a'', CHR 0x22, CHR ''b''])]"
  have h: "distinct (map fst ?es)" by simp
  from extra_object_rendering[of _ ?es] h
  have k: "distinct (map (fst \<circ> extra_member) ?es)" by blast
  have a: \<open>fe_web_message_to_json
     \<lparr>msg_id = None, msg_type = WEB_MSG_PONG, server_tag = None, target = None,
      nick = None, msg_text = None, response_to = None, timestamp = 5, level = 0,
      is_own = False, extra_data = Some ?es\<rparr>
     = ''{"type":"pong","timestamp":5,"extra":{"params":[1,2,3],"note":"a'' @ [CHR 0x5C] @ ''"b"}}''\<close>
    by code_simp
  have b: \<open>fe_web_message_to_json
     \<lparr>msg_id = None, msg_type = WEB_MSG_PONG, server_tag = None, target = None,
      nick = None, msg_text = None, response_to = None, timestamp = 5, level = 0,
      is_own = False, extra_data = Some []\<rparr>
     = ''{"type":"pong","timestamp":5}''\<close>
    by code_simp
  from h k a b show ?thesis by (simp only: simp_thms)
qed

text \<open>
  C1 (as stated). Every message is serialized to a single-line JSON object. This fails
  when the extension map holds a \<^verbatim>\<open>params\<close> value that starts with a bracket and has a line
  feed in it: the value is copied into the output as it is.
\<close>

theorem to_json_fields_counterexample:
  \<open>fe_web_message_to_json
     \<lparr>msg_id = None, msg_type = WEB_MSG_NICKLIST, server_tag = None, target = None,
      nick = None, msg_text = None, response_to = None, timestamp = 0, level = 0,
      is_own = False, extra_data = Some [(''params'', Some [CHR ''['', CHR 0x0A, CHR '']''])]\<rparr>
     = ''{"type":"nicklist","timestamp":0,"extra":{"params":['' @ [CHR 0x0A] @ '']}}'' \<and>
   \<not> single_line
     (fe_web_message_to_json
       \<lparr>msg_id = None, msg_type = WEB_MSG_NICKLIST, server_tag = None, target = None,
        nick = None, msg_text = None, response_to = None, timestamp = 0, level = 0,
        is_own = False, extra_data = Some [(''params'', Some [CHR ''['', CHR 0x0A, CHR '']''])]\<rparr>)\<close>
  by code_simp

text \<open>
  C1 (amended). The output is an opening brace, the members that are present joined by
  single commas, and a closing brace; the members are, in this order, \<^verbatim>\<open>id\<close> (iff present),
  \<^verbatim>\<open>type\<close> (always), \<^verbatim>\<open>response_to\<close>, \<^verbatim>\<open>server\<close>, \<^verbatim>\<open>channel\<close>, \<^verbatim>\<open>nick\<close>
  (each iff present), \<^verbatim>\<open>text\<close> or \<^verbatim>\<open>task\<close> (iff the text is present), \<^verbatim>\<open>timestamp\<close>
  (always, a decimal integer), \<^verbatim>\<open>level\<close> (iff nonzero, a decimal integer), \<^verbatim>\<open>is_own\<close>
  (iff the type is the chat message, \<^verbatim>\<open>true\<close> or \<^verbatim>\<open>false\<close>) and \<^verbatim>\<open>extra\<close> (iff the
  extension map is not empty). The output has no line break exactly when none of the
  \<^verbatim>\<open>params\<close> values that are copied unescaped has one.
\<close>

theorem to_json_fields:
  "fe_web_message_to_json msg = render_object (present (message_slots msg)) \<and>
   (single_line (fe_web_message_to_json msg) \<longleftrightarrow> (\<forall>v \<in> set (raw_values msg). single_line v))"
  using to_json_slots single_line_to_json by blast

theorem to_json_fields_witness:
  \<open>raw_values
       \<lparr>msg_id = Some ''7-0001'', msg_type = WEB_MSG_MESSAGE, server_tag = Some ''libera'',
        target = Some ''#chan'', nick = Some ''bob'', msg_text = Some ''hi'', response_to = None,
        timestamp = 5, level = 4, is_own = True,
        extra_data = Some [(''params'', Some ''[1,2,3]'')]\<rparr> = [''[1,2,3]''] \<and>
   single_line ''[1,2,3]'' \<and>
   single_line (fe_web_message_to_json
       \<lparr>msg_id = Some ''7-0001'', msg_type = WEB_MSG_MESSAGE, server_tag = Some ''libera'',
        target = Some ''#chan'', nick = Some ''bob'', msg_text = Some ''hi'', response_to = None,
        timestamp = 5, level = 4, is_own = True,
        extra_data = Some [(''params'', Some ''[1,2,3]'')]\<rparr>) \<and>
   render_object (present (message_slots
       \<lparr>msg_id = Some ''7-0001'', msg_type = WEB_MSG_MESSAGE, server_tag = Some ''libera'',
        target = Some ''#chan'', nick = Some ''bob'', msg_text = Some ''hi'', response_to = None,
        timestamp = 5, level = 4, is_own = True,
        extra_data = Some [(''params'', Some ''[1,2,3]'')]\<rparr>))
     = ''{"id":"7-0001","type":"message","server":"libera","channel":"#chan","nick":"bob","text":"hi","timestamp":5,"level":4,"is_own":true,"extra":{"params":[1,2,3]}}''\<close>
proof -
  let ?m = "\<lparr>msg_id = Some ''7-0001'', msg_type = WEB_MSG_MESSAGE, server_tag = Some ''libera'',
        target = Some ''#chan'', nick = Some ''bob'', msg_text = Some ''hi'', response_to = None,
        timestamp = 5, level = 4, is_own = True,
        extra_data = Some [(''params'', Some ''[1,2,3]'')]\<rparr>"
  have r: "raw_values ?m = [''[1,2,3]'']"
    by code_simp
  have l: "single_line ''[1,2,3]''"
    by code_simp
  from r l have h: "\<forall>v \<in> set (raw_values ?m). single_line v"
    by simp
  have o: \<open>fe_web_message_to_json ?m
     = ''{"id":"7-0001","type":"message","server":"libera","channel":"#chan","nick":"bob","text":"hi","timestamp":5,"level":4,"is_own":true,"extra":{"params":[1,2,3]}}''\<close>
    by code_simp
  note t = to_json_fields[of ?m]
  from t h have s: "single_line (fe_web_message_to_json ?m)" by blast
  from t have "fe_web_message_to_json ?m = render_object (present (message_slots ?m))"
    by (rule conjunct1)
  then have "render_object (present (message_slots ?m)) = fe_web_message_to_json ?m"
    by (rule sym)
  with o r l s show ?thesis by (simp only: simp_thms)
qed

lemma slot_keys:
  "fst ` set (present (message_slots msg)) =
    (case msg_id msg of None \<Rightarrow> {} | Some s \<Rightarrow> {''id''}) \<union> {''type''} \<union>
    (case response_to msg of None \<Rightarrow> {} | Some s \<Rightarrow> {''response_to''}) \<union>
    (case server_tag msg of None \<Rightarrow> {} | Some s \<Rightarrow> {''server''}) \<union>
    (case target msg of None \<Rightarrow> {} | Some s \<Rightarrow> {''channel''}) \<union>
    (case nick msg of None \<Rightarrow> {} | Some s \<Rightarrow> {''nick''}) \<union>
    (case msg_text msg of None \<Rightarrow> {}
     | Some s \<Rightarrow> {if msg_type msg = WEB_MSG_NICKLIST_UPDATE then ''task'' else ''text''}) \<union>
    {''timestamp''} \<union>
    (if level msg \<noteq> 0 then {''level''} else {}) \<union>
    (if msg_type msg = WEB_MSG_MESSAGE then {''is_own''} else {}) \<union>
    (if extra_entries msg \<noteq> [] then {''extra''} else {})"
proof -
  have p: "fst ` set (present (x # xs)) = (case x of None \<Rightarrow> {} | Some m \<Rightarrow> {fst m}) \<union> fst ` set (present xs)"
    for x :: "(string \<times> string) option" and xs
    by (cases x) (simp_all add: present_simps)
  have m: "(case map_option f x of None \<Rightarrow> {} | Some m \<Rightarrow> {fst m}) = (case x of None \<Rightarrow> {} | Some s \<Rightarrow> {fst (f s)})"
    for f :: "string \<Rightarrow> string \<times> string" and x
    by (cases x) simp_all
  show ?thesis
    unfolding message_slots_def p m
    by (simp add: present_simps Un_assoc cong: option.case_cong)
qed

text \<open>
  C7. Whatever the text is, the output is a prefix and a suffix that do not depend on it,
  with nothing in between when the text is absent and otherwise one member whose value is
  the escaped text and whose key is \<^verbatim>\<open>task\<close> iff the type is the nicklist update, and
  \<^verbatim>\<open>text\<close> for every other type. Among the keys of the object's members, \<^verbatim>\<open>task\<close>
  occurs iff the text is present and the type is the nicklist update, \<^verbatim>\<open>text\<close> iff the
  text is present and the type is another one.
\<close>

theorem text_or_task_key:
  \<open>(\<exists>pre post. \<forall>t. fe_web_message_to_json (msg\<lparr>msg_text := t\<rparr>) =
      pre @
      (case t of
         None \<Rightarrow> []
       | Some s \<Rightarrow>
           '',"'' @ (if msg_type msg = WEB_MSG_NICKLIST_UPDATE then ''task'' else ''text'') @
           ''":"'' @ fe_web_escape_json (Some s) @ ''"'') @
      post) \<and>
   fe_web_message_to_json msg = render_object (present (message_slots msg)) \<and>
   (''task'' \<in> fst ` set (present (message_slots msg)) \<longleftrightarrow>
      msg_text msg \<noteq> None \<and> msg_type msg = WEB_MSG_NICKLIST_UPDATE) \<and>
   (''text'' \<in> fst ` set (present (message_slots msg)) \<longleftrightarrow>
      msg_text msg \<noteq> None \<and> msg_type msg \<noteq> WEB_MSG_NICKLIST_UPDATE)\<close>
proof (intro conjI)
  define pre where \<open>pre =
    ''{'' @
    (case msg_id msg of None \<Rightarrow> [] | Some s \<Rightarrow> ''"id":"'' @ fe_web_escape_json (Some s) @ ''",'') @
    ''"type":"'' @ fe_web_type_to_string (msg_type msg) @ ''"'' @
    (case response_to msg of None \<Rightarrow> []
     | Some s \<Rightarrow> '',"response_to":"'' @ fe_web_escape_json (Some s) @ ''"'') @
    (case server_tag msg of None \<Rightarrow> []
     | Some s \<Rightarrow> '',"server":"'' @ fe_web_escape_json (Some s) @ ''"'') @
    (case target msg of None \<Rightarrow> []
     | Some s \<Rightarrow> '',"channel":"'' @ fe_web_escape_json (Some s) @ ''"'') @
    (case nick msg of None \<Rightarrow> []
     | Some s \<Rightarrow> '',"nick":"'' @ fe_web_escape_json (Some s) @ ''"'')\<close>
  define post where \<open>post =
    '',"timestamp":'' @ printf_d (timestamp msg) @
    (if level msg \<noteq> 0 then '',"level":'' @ printf_d (level msg) else []) @
    (if msg_type msg = WEB_MSG_MESSAGE
     then '',"is_own":'' @ (if is_own msg then ''true'' else ''false'') else []) @
    (if extra_entries msg \<noteq> [] then '',"extra":'' @ extra_object (extra_entries msg) else []) @
    ''}''\<close>
  have \<open>fe_web_message_to_json (msg\<lparr>msg_text := t\<rparr>) =
      pre @
      (case t of
         None \<Rightarrow> []
       | Some s \<Rightarrow>
           '',"'' @ (if msg_type msg = WEB_MSG_NICKLIST_UPDATE then ''task'' else ''text'') @
           ''":"'' @ fe_web_escape_json (Some s) @ ''"'') @
      post\<close> for t
    unfolding to_json_flat pre_def post_def extra_entries_text
    by (cases t) (simp_all cong: option.case_cong)
  then show \<open>\<exists>pre post. \<forall>t. fe_web_message_to_json (msg\<lparr>msg_text := t\<rparr>) =
      pre @
      (case t of
         None \<Rightarrow> []
       | Some s \<Rightarrow>
           '',"'' @ (if msg_type msg = WEB_MSG_NICKLIST_UPDATE then ''task'' else ''text'') @
           ''":"'' @ fe_web_escape_json (Some s) @ ''"'') @
      post\<close>
    by blast
next
  show "fe_web_message_to_json msg = render_object (present (message_slots msg))"
    by (rule to_json_slots)
next
  show "''task'' \<in> fst ` set (present (message_slots msg)) \<longleftrightarrow>
      msg_text msg \<noteq> None \<and> msg_type msg = WEB_MSG_NICKLIST_UPDATE"
    unfolding slot_keys by (simp split: option.split)
next
  show "''text'' \<in> fst ` set (present (message_slots msg)) \<longleftrightarrow>
      msg_text msg \<noteq> None \<and> msg_type msg \<noteq> WEB_MSG_NICKLIST_UPDATE"
    unfolding slot_keys by (simp split: option.split)
qed

theorem text_or_task_key_witness:
  \<open>fe_web_message_to_json
     \<lparr>msg_id = None, msg_type = WEB_MSG_NICKLIST_UPDATE, server_tag = None, target = Some ''#c'',
      nick = Some ''bob'', msg_text = Some ''add'', response_to = None, timestamp = 5, level = 0,
      is_own = False, extra_data = None\<rparr>
     = ''{"type":"nicklist_update","channel":"#c","nick":"bob","task":"add","timestamp":5}'' \<and>
   fe_web_message_to_json
     \<lparr>msg_id = None, msg_type = WEB_MSG_TOPIC, server_tag = None, target = Some ''#c'',
      nick = Some ''bob'', msg_text = Some ''add'', response_to = None, timestamp = 5, level = 0,
      is_own = False, extra_data = None\<rparr>
     = ''{"type":"topic","channel":"#c","nick":"bob","text":"add","timestamp":5}'' \<and>
   ''task'' \<in> fst ` set (present (message_slots
     \<lparr>msg_id = None, msg_type = WEB_MSG_NICKLIST_UPDATE, server_tag = None, target = Some ''#c'',
      nick = Some ''bob'', msg_text = Some ''add'', response_to = None, timestamp = 5, level = 0,
      is_own = False, extra_data = None\<rparr>)) \<and>
   ''text'' \<notin> fst ` set (present (message_slots
     \<lparr>msg_id = None, msg_type = WEB_MSG_NICKLIST_UPDATE, server_tag = None, target = Some ''#c'',
      nick = Some ''bob'', msg_text = Some ''add'', response_to = None, timestamp = 5, level = 0,
      is_own = False, extra_data = None\<rparr>))\<close>
proof -
  let ?u = "\<lparr>msg_id = None, msg_type = WEB_MSG_NICKLIST_UPDATE, server_tag = None, target = Some ''#c'',
      nick = Some ''bob'', msg_text = Some ''add'', response_to = None, timestamp = 5, level = 0,
      is_own = False, extra_data = None\<rparr>"
  let ?t = "\<lparr>msg_id = None, msg_type = WEB_MSG_TOPIC, server_tag = None, target = Some ''#c'',
      nick = Some ''bob'', msg_text = Some ''add'', response_to = None, timestamp = 5, level = 0,
      is_own = False, extra_data = None\<rparr>"
  have a: \<open>fe_web_message_to_json ?u
     = ''{"type":"nicklist_update","channel":"#c","nick":"bob","task":"add","timestamp":5}''\<close>
    by code_simp
  have b: \<open>fe_web_message_to_json ?t
     = ''{"type":"topic","channel":"#c","nick":"bob","text":"add","timestamp":5}''\<close>
    by code_simp
  have c: "''task'' \<in> fst ` set (present (message_slots ?u))"
    and d: "''text'' \<notin> fst ` set (present (message_slots ?u))"
    using text_or_task_key[of ?u] by simp_all
  from a b c d show ?thesis by (simp only: simp_thms)
qed

subsection \<open>The sender\<close>

lemma trace_call: "trace (call e w) = trace w @ [e]"
  and clients_call: "clients (call e w) = clients w"
  and web_clients_call: "web_clients (call e w) = web_clients w"
  by (simp_all add: call_def)

lemma trace_printtext: "trace (printtext l t w) = trace w @ [Printtext l t]"
  and clients_printtext: "clients (printtext l t w) = clients w"
  and web_clients_printtext: "web_clients (printtext l t w) = web_clients w"
  by (simp_all add: printtext_def call_def)

lemmas world_simps = trace_call clients_call web_clients_call
  trace_printtext clients_printtext web_clients_printtext

lemma transmitted_append: "transmitted (a @ b) = transmitted a @ transmitted b"
  by (simp add: transmitted_def List.map_filter_def)

lemma transmitted_simps:
  "transmitted [] = []"
  "transmitted (Printtext l t # es) = transmitted es"
  "transmitted (Crypto_get_key # es) = transmitted es"
  "transmitted (Crypto_encrypt a b # es) = transmitted es"
  "transmitted (Websocket_create_frame n a # es) = transmitted es"
  "transmitted (Net_sendbuffer_send h f # es) = f # transmitted es"
  "transmitted (Ssl_write ch f r # es) = (if r < 0 then transmitted es else f # transmitted es)"
  by (simp_all add: transmitted_def List.map_filter_simps)

lemma send_frame_effect:
  "transmitted (trace (send_frame ext p h t frame w)) =
     transmitted (trace w) @ (if ssl_write_fails ext (clients w p) frame then [] else [frame])"
  "clients (send_frame ext p h t frame w) =
     (if ssl_write_fails ext (clients w p) frame then clients w
      else (clients w)(p := (clients w p)\<lparr>messages_sent := messages_sent (clients w p) + 1\<rparr>))"
  "web_clients (send_frame ext p h t frame w) = web_clients w"
  by (simp_all add: send_frame_def ssl_write_fails_def Let_def world_simps transmitted_append
      transmitted_simps split: option.split)

lemma send_ready_effect:
  assumes "handle (clients w p) \<noteq> None"
  shows "transmitted (trace (send_ready ext p msg w)) =
     transmitted (trace w) @
     (case frame_for ext (clients w p) msg of
        None \<Rightarrow> []
      | Some frame \<Rightarrow> if ssl_write_fails ext (clients w p) frame then [] else [frame])"
  and "clients (send_ready ext p msg w) =
     (case frame_for ext (clients w p) msg of
        None \<Rightarrow> clients w
      | Some frame \<Rightarrow>
          if ssl_write_fails ext (clients w p) frame then clients w
          else (clients w)(p := (clients w p)\<lparr>messages_sent := messages_sent (clients w p) + 1\<rparr>))"
  and "web_clients (send_ready ext p msg w) = web_clients w"
  using assms
  by (auto simp add: send_ready_def frame_for_def Let_def world_simps transmitted_append
      transmitted_simps send_frame_effect split: option.split)

lemma send_ready_no_handle:
  assumes "handle (clients w p) = None"
  shows "transmitted (trace (send_ready ext p msg w)) = transmitted (trace w)"
  and "clients (send_ready ext p msg w) = clients w"
  and "web_clients (send_ready ext p msg w) = web_clients w"
  using assms
  by (simp_all add: send_ready_def Let_def world_simps transmitted_append transmitted_simps)

lemma send_message_effect:
  "transmitted (trace (fe_web_send_message ext (Some p) msg w)) =
     transmitted (trace w) @
     (if gating_passes (clients w p) msg then
        (case frame_for ext (clients w p) msg of
           None \<Rightarrow> []
         | Some frame \<Rightarrow> if ssl_write_fails ext (clients w p) frame then [] else [frame])
      else [])"
  "clients (fe_web_send_message ext (Some p) msg w) =
     (if send_completes ext (clients w p) msg
      then (clients w)(p := (clients w p)\<lparr>messages_sent := messages_sent (clients w p) + 1\<rparr>)
      else clients w)"
  "web_clients (fe_web_send_message ext (Some p) msg w) = web_clients w"
proof -
  show "transmitted (trace (fe_web_send_message ext (Some p) msg w)) =
     transmitted (trace w) @
     (if gating_passes (clients w p) msg then
        (case frame_for ext (clients w p) msg of
           None \<Rightarrow> []
         | Some frame \<Rightarrow> if ssl_write_fails ext (clients w p) frame then [] else [frame])
      else [])"
    by (cases "handle (clients w p) = None")
      (simp_all add: fe_web_send_message_def gating_passes_def Let_def world_simps
        transmitted_append transmitted_simps send_ready_effect send_ready_no_handle)
  show "clients (fe_web_send_message ext (Some p) msg w) =
     (if send_completes ext (clients w p) msg
      then (clients w)(p := (clients w p)\<lparr>messages_sent := messages_sent (clients w p) + 1\<rparr>)
      else clients w)"
    by (cases "handle (clients w p) = None")
      (simp_all add: fe_web_send_message_def gating_passes_def send_completes_def Let_def
        world_simps send_ready_effect send_ready_no_handle split: option.split)
  show "web_clients (fe_web_send_message ext (Some p) msg w) = web_clients w"
    by (cases "handle (clients w p) = None")
      (simp_all add: fe_web_send_message_def Let_def world_simps send_ready_effect
        send_ready_no_handle)
qed




lemma logged_append: "logged (a @ b) = logged a @ logged b"
  by (simp add: logged_def List.map_filter_def)

lemma logged_simps:
  "logged [] = []"
  "logged (Printtext l t # es) = t # logged es"
  "logged (Crypto_get_key # es) = logged es"
  "logged (Crypto_encrypt a b # es) = logged es"
  "logged (Websocket_create_frame n a # es) = logged es"
  "logged (Net_sendbuffer_send h f # es) = logged es"
  "logged (Ssl_write ch f r # es) = logged es"
  by (simp_all add: logged_def List.map_filter_simps)

lemma sublist_mid: "l = ps @ xs @ ss \<Longrightarrow> sublist xs l"
  by simp

lemma client_line:
  "sublist t (''fe-web: ['' @ i @ ''] '' @ A @ t @ B)"
  "sublist (''['' @ i @ '']'') (''fe-web: ['' @ i @ ''] '' @ A @ t @ B)"
proof -
  show "sublist t (''fe-web: ['' @ i @ ''] '' @ A @ t @ B)"
    by (rule sublist_mid[where ps = "''fe-web: ['' @ i @ ''] '' @ A" and ss = B]) simp
  show "sublist (''['' @ i @ '']'') (''fe-web: ['' @ i @ ''] '' @ A @ t @ B)"
    by (rule sublist_mid[where ps = "''fe-web: ''" and ss = "'' '' @ A @ t @ B"]) simp
qed

lemma abort_logged_present:
  assumes "abort_point_of ext (Some (clients w p)) msg = Some a"
  shows "\<exists>A B. logged (trace (fe_web_send_message ext (Some p) msg w)) =
      logged (trace w) @ progress_lines ext (clients w p) msg a @
      [''fe-web: ['' @ client_id (clients w p) @ ''] '' @ A @
       fe_web_type_to_string (msg_type msg) @ B]"
proof -
  let ?c = "clients w p"
  let ?t = "fe_web_type_to_string (msg_type msg)"
  let ?line = "\<lambda>A B. ''fe-web: ['' @ client_id ?c @ ''] '' @ A @ ?t @ B"
  consider (nr) "a = Not_ready" "msg_type msg \<noteq> WEB_MSG_AUTH_OK" "\<not> authenticated ?c \<or> \<not> handshake_done ?c"
    | (hs) "a = Handshake_not_done" "msg_type msg = WEB_MSG_AUTH_OK" "\<not> handshake_done ?c"
    | (ha) "a = Handle_absent" "gating_passes ?c msg \<or> handle ?c = None" "handle ?c = None"
        "msg_type msg \<noteq> WEB_MSG_AUTH_OK \<longrightarrow> authenticated ?c \<and> handshake_done ?c"
        "msg_type msg = WEB_MSG_AUTH_OK \<longrightarrow> handshake_done ?c"
    | (ka) h where "a = Key_absent" "handle ?c = Some h" "encryption_enabled ?c" "fe_web_crypto_get_key ext = None"
        "msg_type msg \<noteq> WEB_MSG_AUTH_OK \<longrightarrow> authenticated ?c \<and> handshake_done ?c"
        "msg_type msg = WEB_MSG_AUTH_OK \<longrightarrow> handshake_done ?c"
    | (ef) h key where "a = Encryption_failed" "handle ?c = Some h" "encryption_enabled ?c"
        "fe_web_crypto_get_key ext = Some key" "fe_web_crypto_encrypt ext (fe_web_message_to_json msg) key = None"
        "msg_type msg \<noteq> WEB_MSG_AUTH_OK \<longrightarrow> authenticated ?c \<and> handshake_done ?c"
        "msg_type msg = WEB_MSG_AUTH_OK \<longrightarrow> handshake_done ?c"
    | (sf) h frame where "a = Ssl_write_failed" "handle ?c = Some h" "frame_for ext ?c msg = Some frame"
        "ssl_write_fails ext ?c frame"
        "msg_type msg \<noteq> WEB_MSG_AUTH_OK \<longrightarrow> authenticated ?c \<and> handshake_done ?c"
        "msg_type msg = WEB_MSG_AUTH_OK \<longrightarrow> handshake_done ?c"
    using assms
    by (auto simp add: abort_point_of_def frame_for_def split: if_splits option.splits)
  then show ?thesis
  proof cases
    case nr
    have "logged (trace (fe_web_send_message ext (Some p) msg w)) =
      logged (trace w) @ progress_lines ext ?c msg a @
      [?line ''Skipping '' ('' - not ready (auth:'' @ printf_flag (authenticated ?c) @
          '' handshake:'' @ printf_flag (handshake_done ?c) @ '')'')]"
      using nr by (auto simp add: fe_web_send_message_def Let_def world_simps logged_append
          logged_simps progress_lines_def)
    then show ?thesis by blast
  next
    case hs
    have "logged (trace (fe_web_send_message ext (Some p) msg w)) =
      logged (trace w) @ progress_lines ext ?c msg a @
      [?line ''ERROR: Cannot send '' '' - handshake not done'']"
      using hs by (simp add: fe_web_send_message_def Let_def world_simps logged_append
          logged_simps progress_lines_def)
    then show ?thesis by blast
  next
    case ha
    have "logged (trace (fe_web_send_message ext (Some p) msg w)) =
      logged (trace w) @ progress_lines ext ?c msg a @
      [?line ''ERROR: Cannot send '' '' - handle is NULL'']"
      using ha by (auto simp add: fe_web_send_message_def send_ready_def Let_def world_simps
          logged_append logged_simps progress_lines_def)
    then show ?thesis by blast
  next
    case ka
    have "logged (trace (fe_web_send_message ext (Some p) msg w)) =
      logged (trace w) @ progress_lines ext ?c msg a @
      [?line ''Encryption key not available for '' []]"
      using ka by (auto simp add: fe_web_send_message_def send_ready_def Let_def world_simps
          logged_append logged_simps progress_lines_def sending_line_def)
    then show ?thesis by blast
  next
    case ef
    have "logged (trace (fe_web_send_message ext (Some p) msg w)) =
      logged (trace w) @ progress_lines ext ?c msg a @
      [?line ''Encryption failed for '' []]"
      using ef by (auto simp add: fe_web_send_message_def send_ready_def Let_def world_simps
          logged_append logged_simps progress_lines_def sending_line_def)
    then show ?thesis by blast
  next
    case sf
    have "logged (trace (fe_web_send_message ext (Some p) msg w)) =
      logged (trace w) @ progress_lines ext ?c msg a @
      [?line ''SSL write failed for '' []]"
      using sf by (auto simp add: fe_web_send_message_def send_ready_def send_frame_def Let_def
          world_simps logged_append logged_simps progress_lines_def sending_line_def
          encrypted_line_def cipher_for_def frame_for_def ssl_write_fails_def
          split: option.splits if_splits)
    then show ?thesis by blast
  qed
qed

text \<open>
  C8 (as stated). Every log line at an abort point includes the client identity. This
  fails at the first abort point: for an absent client there is no identity, and the line
  carries the type name only. The theorem shows the line in full; it has no bracket, and
  the identity of no client of the registry occurs in it.
\<close>

theorem send_abort_log_line_counterexample:
  "abort_point_of example_externals None (example_message WEB_MSG_MESSAGE) = Some Client_absent \<and>
   logged (trace (fe_web_send_message example_externals None (example_message WEB_MSG_MESSAGE)
     example_world)) = [''fe-web: ERROR: Cannot send message - client is NULL''] \<and>
   \<not> sublist ''['' ''fe-web: ERROR: Cannot send message - client is NULL'' \<and>
   map (\<lambda>p. sublist (client_id (clients example_world p))
          ''fe-web: ERROR: Cannot send message - client is NULL'')
     (web_clients example_world) = [False, False, False, False]"
  by code_simp

text \<open>
  C8 (amended). When a send stops at an abort point, the lines that the call has logged
  are the progress lines written before that point (none for an absent client, a failed
  gating or an absent handle; the line with the JSON, and after a successful encryption the
  line that reports it, for the later points) followed by exactly one more line. That line
  includes the name of the message type, and it includes the client identity between
  brackets whenever there is a client; for an absent client it is the line that says so.
\<close>

theorem send_abort_log_line:
  assumes "abort_point_of ext (map_option (clients w) client) msg = Some a"
  shows "\<exists>line.
    logged (trace (fe_web_send_message ext client msg w)) =
      logged (trace w) @
      (case client of None \<Rightarrow> [] | Some p \<Rightarrow> progress_lines ext (clients w p) msg a) @ [line] \<and>
    sublist (fe_web_type_to_string (msg_type msg)) line \<and>
    (case client of
       None \<Rightarrow>
         line = ''fe-web: ERROR: Cannot send '' @ fe_web_type_to_string (msg_type msg) @
           '' - client is NULL''
     | Some p \<Rightarrow> sublist (''['' @ client_id (clients w p) @ '']'') line)"
proof (cases client)
  case None
  have "sublist (fe_web_type_to_string (msg_type msg))
      (''fe-web: ERROR: Cannot send '' @ fe_web_type_to_string (msg_type msg) @ '' - client is NULL'')"
    by (rule sublist_appendI)
  then show ?thesis
    using None
    by (simp add: fe_web_send_message_def Let_def world_simps logged_append logged_simps)
next
  case (Some p)
  with assms have "abort_point_of ext (Some (clients w p)) msg = Some a" by simp
  from abort_logged_present[OF this] obtain A B where
    l: "logged (trace (fe_web_send_message ext (Some p) msg w)) =
      logged (trace w) @ progress_lines ext (clients w p) msg a @
      [''fe-web: ['' @ client_id (clients w p) @ ''] '' @ A @
       fe_web_type_to_string (msg_type msg) @ B]"
    by blast
  show ?thesis
    using Some l client_line[where t = "fe_web_type_to_string (msg_type msg)" and i = "client_id (clients w p)"
        and A = A and B = B]
    by simp
qed

theorem send_abort_log_line_witness:
  \<open>abort_point_of example_externals (map_option (clients example_world) (Some 2))
     (example_message WEB_MSG_PONG) = Some Key_absent \<and>
   (\<exists>line. logged (trace (fe_web_send_message example_externals (Some 2)
        (example_message WEB_MSG_PONG) example_world)) =
      [''fe-web: [c3] Sending pong: {"type":"pong","timestamp":5}'', line] \<and>
      sublist ''pong'' line \<and> sublist ''[c3]'' line) \<and>
   logged (trace (fe_web_send_message example_externals (Some 2)
        (example_message WEB_MSG_PONG) example_world)) =
      [''fe-web: [c3] Sending pong: {"type":"pong","timestamp":5}'',
       ''fe-web: [c3] Encryption key not available for pong'']\<close>
proof -
  have a: "abort_point_of example_externals (map_option (clients example_world) (Some 2))
     (example_message WEB_MSG_PONG) = Some Key_absent"
    by code_simp
  have p: \<open>progress_lines example_externals (clients example_world 2) (example_message WEB_MSG_PONG)
      Key_absent = [''fe-web: [c3] Sending pong: {"type":"pong","timestamp":5}'']\<close>
    by code_simp
  have t: "logged (trace example_world) = []"
    and n: "fe_web_type_to_string (msg_type (example_message WEB_MSG_PONG)) = ''pong''"
    and i: "''['' @ client_id (clients example_world 2) @ '']'' = ''[c3]''"
    by code_simp+
  have e: \<open>logged (trace (fe_web_send_message example_externals (Some 2)
        (example_message WEB_MSG_PONG) example_world)) =
      [''fe-web: [c3] Sending pong: {"type":"pong","timestamp":5}'',
       ''fe-web: [c3] Encryption key not available for pong'']\<close>
    by code_simp
  from send_abort_log_line[OF a] obtain line where
    "logged (trace (fe_web_send_message example_externals (Some 2)
        (example_message WEB_MSG_PONG) example_world)) =
      logged (trace example_world) @
      progress_lines example_externals (clients example_world 2) (example_message WEB_MSG_PONG)
        Key_absent @ [line]"
    and "sublist (fe_web_type_to_string (msg_type (example_message WEB_MSG_PONG))) line"
    and "sublist (''['' @ client_id (clients example_world 2) @ '']'') line"
    by auto
  then have \<open>\<exists>line. logged (trace (fe_web_send_message example_externals (Some 2)
        (example_message WEB_MSG_PONG) example_world)) =
      [''fe-web: [c3] Sending pong: {"type":"pong","timestamp":5}'', line] \<and>
      sublist ''pong'' line \<and> sublist ''[c3]'' line\<close>
    unfolding p t n i by auto
  with a e show ?thesis by (simp only: simp_thms)
qed

text \<open>
  C10. For every client and message that pass the gating, with or without encryption, the
  first call that the send makes is the log call whose text ends with the complete
  serialized JSON; when the message is then encrypted, the encryption call comes after it.
\<close>

theorem send_logs_plaintext:
  assumes "gating_passes (clients w p) msg"
  shows "\<exists>rest.
    trace (fe_web_send_message ext (Some p) msg w) =
      trace w @
      Printtext MSGLEVEL_CLIENTNOTICE
        (''fe-web: ['' @ client_id (clients w p) @ ''] Sending '' @
         fe_web_type_to_string (msg_type msg) @ '': '' @ fe_web_message_to_json msg) # rest \<and>
    (\<forall>key. encryption_enabled (clients w p) \<and> fe_web_crypto_get_key ext = Some key \<longrightarrow>
       Crypto_encrypt (fe_web_message_to_json msg) key \<in> set rest)"
proof -
  from assms obtain h where h: "handle (clients w p) = Some h"
    by (auto simp add: gating_passes_def)
  from assms have r: "fe_web_send_message ext (Some p) msg w = send_ready ext p msg w"
    by (auto simp add: gating_passes_def fe_web_send_message_def Let_def)
  show ?thesis
    unfolding r using h
    by (auto simp add: send_ready_def send_frame_def Let_def world_simps split: option.split)
qed

theorem send_logs_plaintext_witness:
  \<open>gating_passes (clients example_world 2) (example_message WEB_MSG_PONG) \<and>
   encryption_enabled (clients example_world 2) \<and>
   take 3 (trace (fe_web_send_message example_crypto_externals (Some 2)
     (example_message WEB_MSG_PONG) example_world)) =
     [Printtext MSGLEVEL_CLIENTNOTICE ''fe-web: [c3] Sending pong: {"type":"pong","timestamp":5}'',
      Crypto_get_key,
      Crypto_encrypt ''{"type":"pong","timestamp":5}'' ''k''] \<and>
   hd (trace (fe_web_send_message example_crypto_externals (Some 2)
     (example_message WEB_MSG_PONG) example_world)) =
     Printtext MSGLEVEL_CLIENTNOTICE ''fe-web: [c3] Sending pong: {"type":"pong","timestamp":5}''\<close>
proof -
  have g: "gating_passes (clients example_world 2) (example_message WEB_MSG_PONG)"
    and e: "encryption_enabled (clients example_world 2)"
    by code_simp+
  have t: "trace example_world = []"
    by code_simp
  have l: \<open>''fe-web: ['' @ client_id (clients example_world 2) @ ''] Sending '' @
         fe_web_type_to_string (msg_type (example_message WEB_MSG_PONG)) @ '': '' @
         fe_web_message_to_json (example_message WEB_MSG_PONG)
       = ''fe-web: [c3] Sending pong: {"type":"pong","timestamp":5}''\<close>
    by code_simp
  have k: \<open>take 3 (trace (fe_web_send_message example_crypto_externals (Some 2)
     (example_message WEB_MSG_PONG) example_world)) =
     [Printtext MSGLEVEL_CLIENTNOTICE ''fe-web: [c3] Sending pong: {"type":"pong","timestamp":5}'',
      Crypto_get_key,
      Crypto_encrypt ''{"type":"pong","timestamp":5}'' ''k'']\<close>
    by code_simp
  from send_logs_plaintext[OF g, of example_crypto_externals] obtain rest where
    "trace (fe_web_send_message example_crypto_externals (Some 2)
       (example_message WEB_MSG_PONG) example_world) =
      trace example_world @
      Printtext MSGLEVEL_CLIENTNOTICE
        (''fe-web: ['' @ client_id (clients example_world 2) @ ''] Sending '' @
         fe_web_type_to_string (msg_type (example_message WEB_MSG_PONG)) @ '': '' @
         fe_web_message_to_json (example_message WEB_MSG_PONG)) # rest"
    by blast
  then have \<open>hd (trace (fe_web_send_message example_crypto_externals (Some 2)
     (example_message WEB_MSG_PONG) example_world)) =
     Printtext MSGLEVEL_CLIENTNOTICE ''fe-web: [c3] Sending pong: {"type":"pong","timestamp":5}''\<close>
    unfolding t l by simp
  with g e k show ?thesis by (simp only: simp_thms)
qed

subsection \<open>The fanout\<close>

lemma send_trace_append:
  "trace (fe_web_send_message ext cl msg w) =
    trace w @ trace (fe_web_send_message ext cl msg (w\<lparr>trace := []\<rparr>))"
  by (simp add: fe_web_send_message_def send_ready_def send_frame_def Let_def call_def
      printtext_def split: option.split)

lemma send_trace_count:
  assumes "clients w' p = (clients w p)\<lparr>messages_sent := n\<rparr>"
  shows "trace (fe_web_send_message ext (Some p) msg (w'\<lparr>trace := []\<rparr>)) =
    trace (fe_web_send_message ext (Some p) msg (w\<lparr>trace := []\<rparr>))"
  using assms
  by (simp add: fe_web_send_message_def send_ready_def send_frame_def Let_def call_def
      printtext_def split: option.split)

lemma send_clients_count:
  "\<exists>n. clients (fe_web_send_message ext (Some p) msg w) q = (clients w q)\<lparr>messages_sent := n\<rparr>"
proof (cases "q = p \<and> send_completes ext (clients w p) msg")
  case True
  then have "clients (fe_web_send_message ext (Some p) msg w) q =
      (clients w q)\<lparr>messages_sent := messages_sent (clients w q) + 1\<rparr>"
    by (simp add: send_message_effect)
  then show ?thesis by blast
next
  case False
  have "clients (fe_web_send_message ext (Some p) msg w) q = (clients w q)\<lparr>messages_sent := messages_sent (clients w q)\<rparr>"
    using False by (auto simp add: send_message_effect)
  then show ?thesis by blast
qed

lemma send_flags:
  "authenticated (clients (fe_web_send_message ext (Some p) msg w) q) = authenticated (clients w q)"
  "server (clients (fe_web_send_message ext (Some p) msg w) q) = server (clients w q)"
  "wants_all_servers (clients (fe_web_send_message ext (Some p) msg w) q) = wants_all_servers (clients w q)"
  using send_clients_count[of ext p msg w q] by auto

lemma server_loop_fold:
  "send_to_server_loop ext srv msg ps w =
    foldl (\<lambda>w p. fe_web_send_message ext (Some p) msg w) w
      (filter (\<lambda>p. authenticated (clients w p) \<and>
                 (server (clients w p) = Some srv \<or> wants_all_servers (clients w p))) ps)"
proof (induction ps arbitrary: w)
  case Nil
  then show ?case by simp
next
  case (Cons p ps)
  show ?case
    by (auto simp add: Let_def Cons.IH send_flags)
qed

lemma all_loop_fold:
  "send_to_all_loop ext msg ps w =
    foldl (\<lambda>w p. fe_web_send_message ext (Some p) msg w) w
      (filter (\<lambda>p. authenticated (clients w p)) ps)"
proof (induction ps arbitrary: w)
  case Nil
  then show ?case by simp
next
  case (Cons p ps)
  show ?case
    by (auto simp add: Let_def Cons.IH send_flags)
qed

lemma fold_trace:
  assumes "\<forall>q. \<exists>n. clients w1 q = (clients w q)\<lparr>messages_sent := n\<rparr>"
  shows "trace (foldl (\<lambda>w p. fe_web_send_message ext (Some p) msg w) w1 ps) =
    trace w1 @
    concat (map (\<lambda>p. trace (fe_web_send_message ext (Some p) msg (w\<lparr>trace := []\<rparr>))) ps)"
  using assms
proof (induction ps arbitrary: w1)
  case Nil
  then show ?case by simp
next
  case (Cons p ps)
  let ?w2 = "fe_web_send_message ext (Some p) msg w1"
  from Cons.prems obtain n where n: "clients w1 p = (clients w p)\<lparr>messages_sent := n\<rparr>"
    by blast
  have t: "trace ?w2 = trace w1 @ trace (fe_web_send_message ext (Some p) msg (w\<lparr>trace := []\<rparr>))"
    using send_trace_append[of ext "Some p" msg w1] send_trace_count[OF n, of ext msg] by simp
  have "\<exists>m. clients ?w2 q = (clients w q)\<lparr>messages_sent := m\<rparr>" for q
  proof -
    from send_clients_count[of ext p msg w1 q] obtain m where
      "clients ?w2 q = (clients w1 q)\<lparr>messages_sent := m\<rparr>" by blast
    moreover from Cons.prems obtain k where "clients w1 q = (clients w q)\<lparr>messages_sent := k\<rparr>"
      by blast
    ultimately have "clients ?w2 q = (clients w q)\<lparr>messages_sent := m\<rparr>" by simp
    then show ?thesis by blast
  qed
  then have "\<forall>q. \<exists>m. clients ?w2 q = (clients w q)\<lparr>messages_sent := m\<rparr>" by blast
  from Cons.IH[OF this] show ?case by (simp add: t)
qed

text \<open>
  C3. With an absent server \<^verbatim>\<open>fe_web_send_to_server_clients\<close> does nothing. Otherwise it
  is one send per registry entry, in registry order, whose client is authenticated and is
  bound to the given server or wants all servers; \<^verbatim>\<open>fe_web_send_to_all_clients\<close> is one
  send per entry whose client is authenticated. Whatever the outcome of each send, the
  calls that such a sequence of sends makes are, client by client, the calls of a send to
  that client alone: a send that fails neither ends the traversal nor changes what the
  later clients get.
\<close>

theorem fanout_sends:
  "fe_web_send_to_server_clients ext None msg w = w \<and>
   fe_web_send_to_server_clients ext (Some srv) msg w =
     foldl (\<lambda>w p. fe_web_send_message ext (Some p) msg w) w
       (filter (\<lambda>p. authenticated (clients w p) \<and>
                  (server (clients w p) = Some srv \<or> wants_all_servers (clients w p)))
          (web_clients w)) \<and>
   fe_web_send_to_all_clients ext msg w =
     foldl (\<lambda>w p. fe_web_send_message ext (Some p) msg w) w
       (filter (\<lambda>p. authenticated (clients w p)) (web_clients w)) \<and>
   trace (foldl (\<lambda>w p. fe_web_send_message ext (Some p) msg w) w ps) =
     trace w @
     concat (map (\<lambda>p. trace (fe_web_send_message ext (Some p) msg (w\<lparr>trace := []\<rparr>))) ps)"
proof (intro conjI)
  show "fe_web_send_to_server_clients ext None msg w = w"
    by (simp add: fe_web_send_to_server_clients_def)
  show "fe_web_send_to_server_clients ext (Some srv) msg w =
     foldl (\<lambda>w p. fe_web_send_message ext (Some p) msg w) w
       (filter (\<lambda>p. authenticated (clients w p) \<and>
                  (server (clients w p) = Some srv \<or> wants_all_servers (clients w p)))
          (web_clients w))"
    by (simp add: fe_web_send_to_server_clients_def server_loop_fold)
  show "fe_web_send_to_all_clients ext msg w =
     foldl (\<lambda>w p. fe_web_send_message ext (Some p) msg w) w
       (filter (\<lambda>p. authenticated (clients w p)) (web_clients w))"
    by (simp add: fe_web_send_to_all_clients_def all_loop_fold)
  have "\<forall>q. \<exists>n. clients w q = (clients w q)\<lparr>messages_sent := n\<rparr>"
  proof
    fix q
    have "clients w q = (clients w q)\<lparr>messages_sent := messages_sent (clients w q)\<rparr>" by simp
    then show "\<exists>n. clients w q = (clients w q)\<lparr>messages_sent := n\<rparr>" by blast
  qed
  then show "trace (foldl (\<lambda>w p. fe_web_send_message ext (Some p) msg w) w ps) =
     trace w @
     concat (map (\<lambda>p. trace (fe_web_send_message ext (Some p) msg (w\<lparr>trace := []\<rparr>))) ps)"
    by (rule fold_trace)
qed

theorem fanout_sends_witness:
  \<open>transmitted (trace (fe_web_send_to_server_clients example_externals (Some 7)
     (example_message WEB_MSG_PONG) example_world)) = [''{"type":"pong","timestamp":5}''] \<and>
   map (\<lambda>p. messages_sent (clients (fe_web_send_to_server_clients example_externals (Some 7)
     (example_message WEB_MSG_PONG) example_world) p)) [0, 1, 2, 3] = [1, 0, 0, 0] \<and>
   transmitted (trace (fe_web_send_to_all_clients example_externals
     (example_message WEB_MSG_PONG) example_world)) =
     [''{"type":"pong","timestamp":5}'', ''{"type":"pong","timestamp":5}''] \<and>
   map (\<lambda>p. messages_sent (clients (fe_web_send_to_all_clients example_externals
     (example_message WEB_MSG_PONG) example_world) p)) [0, 1, 2, 3] = [1, 1, 0, 0]\<close>
proof -
  note f = fanout_sends[of example_externals "example_message WEB_MSG_PONG" example_world 7 "[]"]
  have s: "filter (\<lambda>p. authenticated (clients example_world p) \<and>
                  (server (clients example_world p) = Some 7 \<or>
                   wants_all_servers (clients example_world p)))
          (web_clients example_world) = [0, 2]"
    by code_simp
  have a: "filter (\<lambda>p. authenticated (clients example_world p)) (web_clients example_world) = [0, 1, 2]"
    by code_simp
  have 1: "fe_web_send_to_server_clients example_externals (Some 7)
     (example_message WEB_MSG_PONG) example_world =
     foldl (\<lambda>w p. fe_web_send_message example_externals (Some p) (example_message WEB_MSG_PONG) w)
       example_world [0, 2]"
    using f s by simp
  have 2: "fe_web_send_to_all_clients example_externals
     (example_message WEB_MSG_PONG) example_world =
     foldl (\<lambda>w p. fe_web_send_message example_externals (Some p) (example_message WEB_MSG_PONG) w)
       example_world [0, 1, 2]"
    using f a by simp
  show ?thesis
    unfolding 1 2 by code_simp
qed

end
